theory Spec2Isabelle
  imports Complex_Main "HOL-Library.Sublist" "HOL-Library.Multiset"
begin

section \<open>The bookmark server: storage, routes and their properties\<close>

text \<open>
  The development embeds the Express routes of
  \<^verbatim>\<open>packages/server/src/routes/bookmarkRoutes.ts\<close> and
  \<^verbatim>\<open>packages/server/src/routes/tagRoutes.ts\<close> over the schema that
  \<^verbatim>\<open>initDatabase\<close> (\<^verbatim>\<open>packages/server/src/database.ts\<close>) creates.
  A route handler becomes a function from the database (and the request) to the
  response, and, for a handler that writes, to the database it leaves behind. A thrown
  exception is the \<open>Inl\<close> branch of the response; the database returned with it is the one
  the statements executed before the throw have produced, since the source opens no
  transaction.
\<close>

subsection \<open>JavaScript numbers and the built-in \<open>Number\<close>\<close>

text \<open>
  A route parameter and a query parameter are strings; the handlers convert them with the
  built-in \<^verbatim>\<open>Number\<close>. Its values are modelled as exact rationals together with
  \<open>NaN\<close> and the two infinities. Rounding to binary64 is not modelled, so the model agrees
  with JavaScript on every literal that binary64 represents exactly (all integers of
  magnitude up to \<open>2 ^ 53\<close> among them). Characters are 8-bit, so of the white space that
  \<^verbatim>\<open>Number\<close> strips only the ASCII part is modelled.
\<close>

datatype jsnum = NaN | Infinity | NegInfinity | Num rat

fun isNaN :: "jsnum \<Rightarrow> bool" where
  "isNaN NaN = True"
| "isNaN _ = False"

definition isWhiteSpace :: "char \<Rightarrow> bool" where
  "isWhiteSpace c = (of_char c \<in> {9, 10, 11, 12, 13, 32 :: nat})"

definition trim :: "string \<Rightarrow> string" where
  "trim s = rev (dropWhile isWhiteSpace (rev (dropWhile isWhiteSpace s)))"

definition isDigit :: "char \<Rightarrow> bool" where
  "isDigit c = (48 \<le> (of_char c :: nat) \<and> (of_char c :: nat) \<le> 57)"

definition digitVal :: "nat \<Rightarrow> char \<Rightarrow> nat option" where
  "digitVal radix c =
     (let n = (of_char c :: nat);
          v = (if 48 \<le> n \<and> n \<le> 57 then n - 48
               else if 97 \<le> n \<and> n \<le> 122 then n - 87
               else if 65 \<le> n \<and> n \<le> 90 then n - 55
               else radix)
      in if v < radix then Some v else None)"

fun digitsVal :: "nat \<Rightarrow> nat \<Rightarrow> string \<Rightarrow> nat option" where
  "digitsVal radix acc [] = Some acc"
| "digitsVal radix acc (c # cs) =
     (case digitVal radix c of
        None \<Rightarrow> None
      | Some v \<Rightarrow> digitsVal radix (acc * radix + v) cs)"

definition nonDecimal :: "nat \<Rightarrow> string \<Rightarrow> jsnum" where
  "nonDecimal radix ds =
     (if ds = [] then NaN
      else case digitsVal radix 0 ds of None \<Rightarrow> NaN | Some n \<Rightarrow> Num (of_nat n))"

definition exponentPart :: "string \<Rightarrow> int option" where
  "exponentPart r =
     (case r of
        [] \<Rightarrow> Some 0
      | e # r' \<Rightarrow>
          if e = CHR ''e'' \<or> e = CHR ''E'' then
            (let neg = (r' \<noteq> [] \<and> hd r' = CHR ''-'');
                 ds = (if r' \<noteq> [] \<and> (hd r' = CHR ''-'' \<or> hd r' = CHR ''+'') then tl r' else r')
             in if ds = [] then None
                else case digitsVal 10 0 ds of
                       None \<Rightarrow> None
                     | Some n \<Rightarrow> Some (if neg then - int n else int n))
          else None)"

definition unsignedDecimal :: "string \<Rightarrow> jsnum" where
  "unsignedDecimal u =
     (if u = ''Infinity'' then Infinity
      else
        let ip = takeWhile isDigit u;
            r1 = dropWhile isDigit u;
            hasDot = (r1 \<noteq> [] \<and> hd r1 = CHR ''.'');
            fp = (if hasDot then takeWhile isDigit (tl r1) else []);
            r2 = (if hasDot then dropWhile isDigit (tl r1) else r1)
        in if ip = [] \<and> fp = [] then NaN
           else case (digitsVal 10 0 (ip @ fp), exponentPart r2) of
                  (Some m, Some e) \<Rightarrow>
                     Num (of_nat m / 10 ^ length fp
                          * (if 0 \<le> e then 10 ^ nat e else 1 / 10 ^ nat (- e)))
                | _ \<Rightarrow> NaN)"

fun negate :: "jsnum \<Rightarrow> jsnum" where
  "negate NaN = NaN"
| "negate Infinity = NegInfinity"
| "negate NegInfinity = Infinity"
| "negate (Num r) = Num (- r)"

definition Number :: "string \<Rightarrow> jsnum" where
  "Number s =
     (let t = trim s in
      if t = [] then Num 0
      else if take 2 t = ''0x'' \<or> take 2 t = ''0X'' then nonDecimal 16 (drop 2 t)
      else if take 2 t = ''0o'' \<or> take 2 t = ''0O'' then nonDecimal 8 (drop 2 t)
      else if take 2 t = ''0b'' \<or> take 2 t = ''0B'' then nonDecimal 2 (drop 2 t)
      else if hd t = CHR ''-'' then negate (unsignedDecimal (tl t))
      else if hd t = CHR ''+'' then unsignedDecimal (tl t)
      else unsignedDecimal t)"

text \<open>
  better-sqlite3 binds a JavaScript number to a statement parameter as an SQLite INTEGER
  or REAL, and \<open>NaN\<close> as NULL. Compared with an INTEGER column (\<^verbatim>\<open>WHERE id = ?\<close>), the
  parameter matches a row exactly when it is the integer stored there: \<open>as_rowid\<close> is that
  integer, if there is one.
\<close>

fun as_rowid :: "jsnum \<Rightarrow> int option" where
  "as_rowid (Num r) = (if r = of_int \<lfloor>r\<rfloor> then Some \<lfloor>r\<rfloor> else None)"
| "as_rowid _ = None"

subsection \<open>The schema of \<^verbatim>\<open>initDatabase\<close>\<close>

text \<open>
  The three tables, their rows in table order. Field names carry a prefix, since a record
  field is a constant of the theory: \<open>r_\<close> for a row of \<^verbatim>\<open>bookmarks\<close> (the source's
  \<^verbatim>\<open>BookmarkRow\<close>), \<open>t_\<close> for a \<^verbatim>\<open>Tag\<close>, \<open>bw_\<close> for the response shape
  \<^verbatim>\<open>BookmarkWithTags\<close>. A row of \<^verbatim>\<open>bookmark_tags\<close> is the pair
  \<open>(bookmark_id, tag_id)\<close>. The value of \<^verbatim>\<open>datetime('now')\<close> is a fixed-width text whose
  order under \<^verbatim>\<open>ORDER BY\<close> is the order of the instants; it is modelled by the instant, a
  natural number handed to each writing handler as \<open>now\<close>. The two \<open>seq\<close> fields are the
  rows that \<^verbatim>\<open>AUTOINCREMENT\<close> keeps in \<^verbatim>\<open>sqlite_sequence\<close>.
\<close>

type_synonym timestamp = nat

record BookmarkRow =
  r_id :: int
  r_title :: string
  r_url :: string
  r_description :: string
  r_favicon :: string
  r_created_at :: timestamp
  r_updated_at :: timestamp

record Tag =
  t_id :: int
  t_name :: string
  t_color :: string

record BookmarkWithTags =
  bw_id :: int
  bw_title :: string
  bw_url :: string
  bw_description :: string
  bw_favicon :: string
  bw_createdAt :: timestamp
  bw_updatedAt :: timestamp
  bw_tags :: "Tag list"

record database =
  bookmarks :: "BookmarkRow list"
  tags :: "Tag list"
  bookmark_tags :: "(int \<times> int) list"
  seq_bookmarks :: int
  seq_tags :: int

definition empty_db :: database where
  "empty_db = \<lparr>bookmarks = [], tags = [], bookmark_tags = [], seq_bookmarks = 0, seq_tags = 0\<rparr>"

subsection \<open>Errors\<close>

text \<open>
  What a statement of the storage engine can throw, and what a handler passes to
  \<^verbatim>\<open>next(err)\<close>. An \<^verbatim>\<open>AppError\<close> keeps its status code (its message, a literal of the
  source, plays no role here); \<open>errorHandler\<close> is the status the middleware of
  \<^verbatim>\<open>errorHandler.ts\<close> answers with.
\<close>

datatype sqlite_error =
  SQLITE_CONSTRAINT_UNIQUE
| SQLITE_CONSTRAINT_FOREIGNKEY
| SQLITE_CONSTRAINT_NOTNULL
| SQLITE_IOERR
| SQLITE_FULL
| SQLITE_BUSY

datatype error = AppError nat | SqliteError sqlite_error | TypeError

fun errorHandler :: "error \<Rightarrow> nat" where
  "errorHandler (AppError statusCode) = statusCode"
| "errorHandler _ = 500"

subsection \<open>The prepared statements\<close>

text \<open>\<^verbatim>\<open>SELECT * FROM bookmarks WHERE id = ?\<close> with \<^verbatim>\<open>.get\<close>: the first matching row.\<close>

definition select_bookmark :: "database \<Rightarrow> jsnum \<Rightarrow> BookmarkRow option" where
  "select_bookmark db n =
     (case as_rowid n of
        None \<Rightarrow> None
      | Some i \<Rightarrow> find (\<lambda>r. r_id r = i) (bookmarks db))"

text \<open>\<^verbatim>\<open>SELECT * FROM tags WHERE id = ?\<close> with \<^verbatim>\<open>.get\<close>.\<close>

definition select_tag :: "database \<Rightarrow> jsnum \<Rightarrow> Tag option" where
  "select_tag db n =
     (case as_rowid n of
        None \<Rightarrow> None
      | Some i \<Rightarrow> find (\<lambda>t. t_id t = i) (tags db))"

text \<open>
  \<^verbatim>\<open>INSERT INTO bookmarks (title, url, description, favicon) VALUES (?, ?, ?, ?)\<close>.
  The id is one more than the largest rowid the table has ever held; both timestamps take
  their default, the one value of \<^verbatim>\<open>datetime('now')\<close> of the statement. The result is
  \<^verbatim>\<open>lastInsertRowid\<close> and the new database.
\<close>

definition insert_bookmark ::
  "database \<Rightarrow> timestamp \<Rightarrow> string \<Rightarrow> string \<Rightarrow> string \<Rightarrow> string \<Rightarrow> int \<times> database" where
  "insert_bookmark db now t u d f =
     (let newId = fold max (map r_id (bookmarks db)) (seq_bookmarks db) + 1;
          row = \<lparr>r_id = newId, r_title = t, r_url = u, r_description = d, r_favicon = f,
                 r_created_at = now, r_updated_at = now\<rparr>
      in (newId, db\<lparr>bookmarks := bookmarks db @ [row], seq_bookmarks := newId\<rparr>))"

text \<open>
  \<^verbatim>\<open>INSERT OR IGNORE INTO bookmark_tags (bookmark_id, tag_id) VALUES (?, ?)\<close> under
  \<^verbatim>\<open>PRAGMA foreign_keys = ON\<close>. A pair already there is skipped (the primary key, resolved by
  \<^verbatim>\<open>OR IGNORE\<close>); a pair whose bookmark or tag does not exist fails the statement, since
  \<^verbatim>\<open>OR IGNORE\<close> does not cover foreign keys. A failed statement changes nothing.
\<close>

definition insertTag_run :: "database \<Rightarrow> jsnum \<Rightarrow> int \<Rightarrow> sqlite_error + database" where
  "insertTag_run db n t =
     (case as_rowid n of
        None \<Rightarrow> Inl (if isNaN n then SQLITE_CONSTRAINT_NOTNULL else SQLITE_CONSTRAINT_FOREIGNKEY)
      | Some b \<Rightarrow>
          if (b, t) \<in> set (bookmark_tags db) then Inr db
          else if b \<in> set (map r_id (bookmarks db)) \<and> t \<in> set (map t_id (tags db))
          then Inr (db\<lparr>bookmark_tags := bookmark_tags db @ [(b, t)]\<rparr>)
          else Inl SQLITE_CONSTRAINT_FOREIGNKEY)"

text \<open>
  \<^verbatim>\<open>UPDATE bookmarks SET title = ?, url = ?, description = ?, favicon = ?,
  updated_at = datetime('now') WHERE id = ?\<close>.
\<close>

definition update_bookmark ::
  "database \<Rightarrow> timestamp \<Rightarrow> string \<Rightarrow> string \<Rightarrow> string \<Rightarrow> string \<Rightarrow> jsnum \<Rightarrow> database" where
  "update_bookmark db now t u d f n =
     db\<lparr>bookmarks :=
          map (\<lambda>r. if as_rowid n = Some (r_id r)
                    then r\<lparr>r_title := t, r_url := u, r_description := d, r_favicon := f,
                           r_updated_at := now\<rparr>
                    else r)
              (bookmarks db)\<rparr>"

text \<open>\<^verbatim>\<open>DELETE FROM bookmark_tags WHERE bookmark_id = ?\<close>.\<close>

definition delete_bookmark_tags :: "database \<Rightarrow> jsnum \<Rightarrow> database" where
  "delete_bookmark_tags db n =
     db\<lparr>bookmark_tags := filter (\<lambda>bt. as_rowid n \<noteq> Some (fst bt)) (bookmark_tags db)\<rparr>"

text \<open>
  \<^verbatim>\<open>DELETE FROM bookmarks WHERE id = ?\<close>: one statement, which removes the matching rows
  and, by \<^verbatim>\<open>ON DELETE CASCADE\<close>, the rows of \<^verbatim>\<open>bookmark_tags\<close> that reference a removed
  row.
\<close>

definition delete_bookmark :: "database \<Rightarrow> jsnum \<Rightarrow> database" where
  "delete_bookmark db n =
     (let gone = map r_id (filter (\<lambda>r. as_rowid n = Some (r_id r)) (bookmarks db))
      in db\<lparr>bookmarks := filter (\<lambda>r. as_rowid n \<noteq> Some (r_id r)) (bookmarks db),
             bookmark_tags := filter (\<lambda>bt. fst bt \<notin> set gone) (bookmark_tags db)\<rparr>)"

text \<open>
  \<^verbatim>\<open>INSERT INTO tags (name, color) VALUES (?, ?)\<close>. The column \<^verbatim>\<open>name\<close> is
  \<^verbatim>\<open>UNIQUE\<close>. The argument \<open>fault\<close> is a failure of the storage itself (a full disk, a
  locked file) that hits this statement, if any: the statement then throws it and changes
  nothing.
\<close>

definition insert_tag ::
  "database \<Rightarrow> sqlite_error option \<Rightarrow> string \<Rightarrow> string \<Rightarrow> sqlite_error + int \<times> database" where
  "insert_tag db fault name color =
     (case fault of
        Some e \<Rightarrow> Inl e
      | None \<Rightarrow>
          if name \<in> set (map t_name (tags db)) then Inl SQLITE_CONSTRAINT_UNIQUE
          else
            let newId = fold max (map t_id (tags db)) (seq_tags db) + 1
            in Inr (newId,
                    db\<lparr>tags := tags db @ [\<lparr>t_id = newId, t_name = name, t_color = color\<rparr>],
                       seq_tags := newId\<rparr>))"

text \<open>
  \<^verbatim>\<open>DELETE FROM tags WHERE id = ?\<close>, with the cascade to \<^verbatim>\<open>bookmark_tags\<close>.
\<close>

definition delete_tag :: "database \<Rightarrow> jsnum \<Rightarrow> database" where
  "delete_tag db n =
     (let gone = map t_id (filter (\<lambda>t. as_rowid n = Some (t_id t)) (tags db))
      in db\<lparr>tags := filter (\<lambda>t. as_rowid n \<noteq> Some (t_id t)) (tags db),
             bookmark_tags := filter (\<lambda>bt. snd bt \<notin> set gone) (bookmark_tags db)\<rparr>)"

text \<open>
  \<^verbatim>\<open>ORDER BY created_at DESC\<close>. SQL leaves the order among rows of equal key open; the
  model keeps one of the admissible orders, and no theorem below depends on which.
\<close>

definition order_by_created_at_desc :: "BookmarkRow list \<Rightarrow> BookmarkRow list" where
  "order_by_created_at_desc rows = rev (sort_key r_created_at rows)"

text \<open>
  The operator \<^verbatim>\<open>LIKE\<close> of SQLite: in the pattern \<^verbatim>\<open>%\<close> matches any sequence of
  characters and \<^verbatim>\<open>_\<close> any one character; any other character matches itself, the
  letters A to Z and a to z without regard to case.
\<close>

definition lower :: "char \<Rightarrow> char" where
  "lower c = (if 65 \<le> (of_char c :: nat) \<and> (of_char c :: nat) \<le> 90
              then char_of (of_char c + 32 :: nat) else c)"

fun like :: "string \<Rightarrow> string \<Rightarrow> bool" where
  "like [] [] = True"
| "like [] (c # cs) = False"
| "like (p # ps) [] = (p = CHR ''%'' \<and> like ps [])"
| "like (p # ps) (c # cs) =
     (if p = CHR ''%'' then like ps (c # cs) \<or> like (p # ps) cs
      else if p = CHR ''_'' then like ps cs
      else lower p = lower c \<and> like ps cs)"

text \<open>
  The three queries of the list route. The join of \<^verbatim>\<open>bookmarks\<close> with
  \<^verbatim>\<open>bookmark_tags\<close> yields a bookmark once for each of its matching association rows;
  \<^verbatim>\<open>DISTINCT\<close> removes the repetitions.
\<close>

definition select_bookmarks_by_tag :: "database \<Rightarrow> jsnum \<Rightarrow> BookmarkRow list" where
  "select_bookmarks_by_tag db n =
     order_by_created_at_desc
       (remdups [b. b \<leftarrow> bookmarks db, bt \<leftarrow> bookmark_tags db,
                    r_id b = fst bt, as_rowid n = Some (snd bt)])"

definition select_bookmarks_like :: "database \<Rightarrow> string \<Rightarrow> BookmarkRow list" where
  "select_bookmarks_like db pat =
     order_by_created_at_desc
       (filter (\<lambda>b. like pat (r_title b) \<or> like pat (r_url b) \<or> like pat (r_description b))
          (bookmarks db))"

definition select_bookmarks_all :: "database \<Rightarrow> BookmarkRow list" where
  "select_bookmarks_all db = order_by_created_at_desc (bookmarks db)"

subsection \<open>The routes of \<^verbatim>\<open>bookmarkRoutes.ts\<close>\<close>

text \<open>
  \<^verbatim>\<open>attachTags\<close>: the tags of the row, by the join of \<^verbatim>\<open>tags\<close> with
  \<^verbatim>\<open>bookmark_tags\<close>, and the fields under their public names. SQL leaves the order of
  the joined rows open; the model takes them in the order of the association rows.
\<close>

definition attachTags :: "database \<Rightarrow> BookmarkRow \<Rightarrow> BookmarkWithTags" where
  "attachTags db row =
     \<lparr>bw_id = r_id row, bw_title = r_title row, bw_url = r_url row,
      bw_description = r_description row, bw_favicon = r_favicon row,
      bw_createdAt = r_created_at row, bw_updatedAt = r_updated_at row,
      bw_tags = [t. bt \<leftarrow> bookmark_tags db, fst bt = r_id row, t \<leftarrow> tags db, t_id t = snd bt]\<rparr>"

text \<open>
  A value of type \<^verbatim>\<open>string | undefined\<close> is a \<open>string option\<close>. It is truthy when it is
  a non-empty string, which the handlers below test by the pattern \<open>Some (c # cs)\<close>;
  \<open>nullish x d\<close> is \<^verbatim>\<open>x ?? d\<close>. The source's variable \<^verbatim>\<open>id\<close> is written \<open>id'\<close>.
\<close>

definition nullish :: "'a option \<Rightarrow> 'a \<Rightarrow> 'a" where
  "nullish x d = (case x of None \<Rightarrow> d | Some v \<Rightarrow> v)"

record ListQuery =
  q_search :: "string option"
  q_tagId :: "string option"

text \<open>\<^verbatim>\<open>GET /api/bookmarks\<close>. The response is the \<^verbatim>\<open>data\<close> of the envelope.\<close>

definition listBookmarks :: "database \<Rightarrow> ListQuery \<Rightarrow> BookmarkWithTags list" where
  "listBookmarks db q =
     (case q_tagId q of
        Some (c # cs) \<Rightarrow> map (attachTags db) (select_bookmarks_by_tag db (Number (c # cs)))
      | _ \<Rightarrow>
         (case q_search q of
            Some (d # ds) \<Rightarrow>
              map (attachTags db) (select_bookmarks_like db (''%'' @ (d # ds) @ ''%''))
          | _ \<Rightarrow> map (attachTags db) (select_bookmarks_all db)))"

text \<open>\<^verbatim>\<open>GET /api/bookmarks/:id\<close>.\<close>

definition getBookmark :: "database \<Rightarrow> string \<Rightarrow> error + BookmarkWithTags" where
  "getBookmark db param =
     (let id' = Number param in
      if isNaN id' then Inl (AppError 400)
      else case select_bookmark db id' of
             None \<Rightarrow> Inl (AppError 404)
           | Some row \<Rightarrow> Inr (attachTags db row))"

text \<open>
  The loop \<^verbatim>\<open>for (const tagId of tagIds) insertTag.run(id, tagId)\<close>: the first statement
  that throws ends it, and the rows inserted before stay.
\<close>

fun insertTags :: "database \<Rightarrow> jsnum \<Rightarrow> int list \<Rightarrow> sqlite_error option \<times> database" where
  "insertTags db n [] = (None, db)"
| "insertTags db n (t # ts) =
     (case insertTag_run db n t of
        Inl e \<Rightarrow> (Some e, db)
      | Inr db' \<Rightarrow> insertTags db' n ts)"

text \<open>
  The tail shared by the create and the update route: the row is read back and given its
  tags. Reading a field of a row that is \<^verbatim>\<open>undefined\<close> would throw a \<^verbatim>\<open>TypeError\<close>.
\<close>

definition read_back :: "database \<Rightarrow> jsnum \<Rightarrow> (error + BookmarkWithTags) \<times> database" where
  "read_back db id' =
     (case select_bookmark db id' of
        None \<Rightarrow> (Inl TypeError, db)
      | Some row \<Rightarrow> (Inr (attachTags db row), db))"

record CreateBookmarkRequest =
  cr_title :: "string option"
  cr_url :: "string option"
  cr_description :: "string option"
  cr_favicon :: "string option"
  cr_tagIds :: "int list option"

text \<open>\<^verbatim>\<open>POST /api/bookmarks\<close>.\<close>

definition createBookmark ::
  "database \<Rightarrow> timestamp \<Rightarrow> CreateBookmarkRequest \<Rightarrow> (error + BookmarkWithTags) \<times> database" where
  "createBookmark db now body =
     (case (cr_title body, cr_url body) of
        (Some (a # as), Some (b # bs)) \<Rightarrow>
          (let (rowid, db1) =
                 insert_bookmark db now (a # as) (b # bs)
                   (nullish (cr_description body) '''') (nullish (cr_favicon body) '''');
               newId = Num (of_int rowid);
               (thrown, db2) =
                 (case cr_tagIds body of
                    None \<Rightarrow> (None, db1)
                  | Some ts \<Rightarrow> if length ts > 0 then insertTags db1 newId ts else (None, db1))
           in case thrown of
                Some e \<Rightarrow> (Inl (SqliteError e), db2)
              | None \<Rightarrow> read_back db2 newId)
      | _ \<Rightarrow> (Inl (AppError 400), db))"

record UpdateBookmarkRequest =
  up_title :: "string option"
  up_url :: "string option"
  up_description :: "string option"
  up_favicon :: "string option"
  up_tagIds :: "int list option"

text \<open>\<^verbatim>\<open>PUT /api/bookmarks/:id\<close>.\<close>

definition updateBookmark ::
  "database \<Rightarrow> timestamp \<Rightarrow> string \<Rightarrow> UpdateBookmarkRequest
     \<Rightarrow> (error + BookmarkWithTags) \<times> database" where
  "updateBookmark db now param body =
     (let id' = Number param in
      if isNaN id' then (Inl (AppError 400), db)
      else case select_bookmark db id' of
             None \<Rightarrow> (Inl (AppError 404), db)
           | Some existing \<Rightarrow>
               (let title = nullish (up_title body) (r_title existing);
                    url = nullish (up_url body) (r_url existing);
                    description = nullish (up_description body) (r_description existing);
                    favicon = nullish (up_favicon body) (r_favicon existing);
                    db1 = update_bookmark db now title url description favicon id';
                    (thrown, db2) =
                      (case up_tagIds body of
                         None \<Rightarrow> (None, db1)
                       | Some ts \<Rightarrow>
                           (let db1' = delete_bookmark_tags db1 id'
                            in if length ts > 0 then insertTags db1' id' ts else (None, db1')))
                in case thrown of
                     Some e \<Rightarrow> (Inl (SqliteError e), db2)
                   | None \<Rightarrow> read_back db2 id'))"

text \<open>\<^verbatim>\<open>DELETE /api/bookmarks/:id\<close>. The response is the \<^verbatim>\<open>id\<close> of \<^verbatim>\<open>data\<close>.\<close>

definition deleteBookmark :: "database \<Rightarrow> string \<Rightarrow> (error + jsnum) \<times> database" where
  "deleteBookmark db param =
     (let id' = Number param in
      if isNaN id' then (Inl (AppError 400), db)
      else case select_bookmark db id' of
             None \<Rightarrow> (Inl (AppError 404), db)
           | Some existing \<Rightarrow> (Inr id', delete_bookmark db id'))"

subsection \<open>The routes of \<^verbatim>\<open>tagRoutes.ts\<close>\<close>

record CreateTagRequest =
  ct_name :: "string option"
  ct_color :: "string option"

text \<open>
  \<^verbatim>\<open>POST /api/tags\<close>. The inner \<^verbatim>\<open>try\<close> holds the insert; its \<^verbatim>\<open>catch\<close> has no
  binding and no test, and throws an \<^verbatim>\<open>AppError(409)\<close> for whatever was thrown.
  The same \<^verbatim>\<open>try\<close> also builds and sends the response, which does not fail for a tag
  made of an id and two strings and is not taken as a source of exceptions here.
\<close>

definition createTag ::
  "database \<Rightarrow> sqlite_error option \<Rightarrow> CreateTagRequest \<Rightarrow> (error + Tag) \<times> database" where
  "createTag db fault body =
     (case ct_name body of
        Some (c # cs) \<Rightarrow>
          (case insert_tag db fault (c # cs) (nullish (ct_color body) ''#6366f1'') of
             Inl e \<Rightarrow> (Inl (AppError 409), db)
           | Inr (rowid, db') \<Rightarrow>
               (Inr \<lparr>t_id = rowid, t_name = c # cs,
                     t_color = nullish (ct_color body) ''#6366f1''\<rparr>, db'))
      | _ \<Rightarrow> (Inl (AppError 400), db))"

text \<open>\<^verbatim>\<open>DELETE /api/tags/:id\<close>.\<close>

definition deleteTag :: "database \<Rightarrow> string \<Rightarrow> (error + jsnum) \<times> database" where
  "deleteTag db param =
     (let id' = Number param in
      if isNaN id' then (Inl (AppError 400), db)
      else case select_tag db id' of
             None \<Rightarrow> (Inl (AppError 404), db)
           | Some existing \<Rightarrow> (Inr id', delete_tag db id'))"

subsection \<open>Reachable databases\<close>

text \<open>
  The databases the server can be in: the empty one that \<^verbatim>\<open>initDatabase\<close> creates, and
  what any writing route leaves behind, whether it answers or throws.
\<close>

inductive reachable :: "database \<Rightarrow> bool" where
  reach_init: "reachable empty_db"
| reach_createBookmark: "reachable db \<Longrightarrow> reachable (snd (createBookmark db now cbody))"
| reach_updateBookmark: "reachable db \<Longrightarrow> reachable (snd (updateBookmark db now param ubody))"
| reach_deleteBookmark: "reachable db \<Longrightarrow> reachable (snd (deleteBookmark db param))"
| reach_createTag: "reachable db \<Longrightarrow> reachable (snd (createTag db fault tbody))"
| reach_deleteTag: "reachable db \<Longrightarrow> reachable (snd (deleteTag db param))"

subsection \<open>A sample database\<close>

text \<open>
  Two tags and two bookmarks, as the routes build them: the tags \<open>work\<close> and \<open>dev\<close>, then
  the bookmark \<open>GitHub\<close> with both tags at time 10 and the bookmark \<open>Example\<close> with the
  first tag at time 20.
\<close>

definition sample_db :: database where
  "sample_db =
     \<lparr>bookmarks =
        [\<lparr>r_id = 1, r_title = ''GitHub'', r_url = ''https://github.com'',
          r_description = ''code hosting'', r_favicon = '''', r_created_at = 10,
          r_updated_at = 10\<rparr>,
         \<lparr>r_id = 2, r_title = ''Example'', r_url = ''http://example.org'',
          r_description = '''', r_favicon = '''', r_created_at = 20, r_updated_at = 20\<rparr>],
      tags =
        [\<lparr>t_id = 1, t_name = ''work'', t_color = ''#6366f1''\<rparr>,
         \<lparr>t_id = 2, t_name = ''dev'', t_color = ''#ff0000''\<rparr>],
      bookmark_tags = [(1, 1), (1, 2), (2, 1)],
      seq_bookmarks = 2, seq_tags = 2\<rparr>"

definition sample_history :: database where
  "sample_history =
     snd (createBookmark
       (snd (createBookmark
         (snd (createTag
           (snd (createTag empty_db None \<lparr>ct_name = Some ''work'', ct_color = None\<rparr>))
           None \<lparr>ct_name = Some ''dev'', ct_color = Some ''#ff0000''\<rparr>))
         10 \<lparr>cr_title = Some ''GitHub'', cr_url = Some ''https://github.com'',
             cr_description = Some ''code hosting'', cr_favicon = None,
             cr_tagIds = Some [1, 2]\<rparr>))
       20 \<lparr>cr_title = Some ''Example'', cr_url = Some ''http://example.org'',
           cr_description = None, cr_favicon = None, cr_tagIds = Some [1]\<rparr>)"



definition sample_q3 :: ListQuery where
  "sample_q3 = \<lparr>q_search = Some '''', q_tagId = None\<rparr>"

subsection \<open>Invariants of the schema\<close>

text \<open>
  Referential integrity of \<^verbatim>\<open>bookmark_tags\<close>: each row references a bookmark and a tag
  that exist.
\<close>

definition ref_integrity :: "database \<Rightarrow> bool" where
  "ref_integrity db =
     (\<forall>bt \<in> set (bookmark_tags db).
        fst bt \<in> set (map r_id (bookmarks db)) \<and> snd bt \<in> set (map t_id (tags db)))"

text \<open>
  Ids are unique within \<^verbatim>\<open>bookmarks\<close> and within \<^verbatim>\<open>tags\<close> (the primary keys).
\<close>

definition unique_ids :: "database \<Rightarrow> bool" where
  "unique_ids db =
     (distinct (map r_id (bookmarks db)) \<and> distinct (map t_id (tags db)))"

text \<open>\<open>tag_exists db t\<close>: some row of \<^verbatim>\<open>tags\<close> has the id \<open>t\<close>.\<close>

definition tag_exists :: "database \<Rightarrow> int \<Rightarrow> bool" where
  "tag_exists db t = (t \<in> set (map t_id (tags db)))"

text \<open>The request of the round trip: title \<open>A\<close>, url \<open>http://a\<close>, tags 1 and 2.\<close>

definition roundtrip_request :: CreateBookmarkRequest where
  "roundtrip_request =
     \<lparr>cr_title = Some ''A'', cr_url = Some ''http://a'', cr_description = None,
      cr_favicon = None, cr_tagIds = Some [1, 2]\<rparr>"

text \<open>
  What the claims expect of a partial update, in the spec's words: a field present in the
  patch overwrites the stored value, an absent one retains it, and \<open>updated_at\<close> is
  refreshed; the id and \<open>created_at\<close> stay.
\<close>

definition patched :: "BookmarkRow \<Rightarrow> UpdateBookmarkRequest \<Rightarrow> timestamp \<Rightarrow> BookmarkRow" where
  "patched existing patch now =
     existing
       \<lparr>r_title := (case up_title patch of None \<Rightarrow> r_title existing | Some v \<Rightarrow> v),
        r_url := (case up_url patch of None \<Rightarrow> r_url existing | Some v \<Rightarrow> v),
        r_description :=
          (case up_description patch of None \<Rightarrow> r_description existing | Some v \<Rightarrow> v),
        r_favicon := (case up_favicon patch of None \<Rightarrow> r_favicon existing | Some v \<Rightarrow> v),
        r_updated_at := now\<rparr>"

text \<open>The association rows of a bookmark, as the set of its tag ids.\<close>

definition tag_ids_of :: "database \<Rightarrow> int \<Rightarrow> int set" where
  "tag_ids_of db b = set (map snd (filter (\<lambda>bt. fst bt = b) (bookmark_tags db)))"

text \<open>The association rows of all other bookmarks.\<close>

definition other_associations :: "database \<Rightarrow> int \<Rightarrow> (int \<times> int) set" where
  "other_associations db b = set (filter (\<lambda>bt. fst bt \<noteq> b) (bookmark_tags db))"

text \<open>
  Patches for the sample database: one that empties the description and sets the tags to
  tag 2, and one whose only content is the id of a tag that does not exist.
\<close>

definition sample_patch :: UpdateBookmarkRequest where
  "sample_patch =
     \<lparr>up_title = None, up_url = None, up_description = Some '''', up_favicon = None,
      up_tagIds = Some [2]\<rparr>"

definition unknown_tag_patch :: UpdateBookmarkRequest where
  "unknown_tag_patch =
     \<lparr>up_title = None, up_url = None, up_description = None, up_favicon = None,
      up_tagIds = Some [7]\<rparr>"

definition github_row :: BookmarkRow where
  "github_row =
     \<lparr>r_id = 1, r_title = ''GitHub'', r_url = ''https://github.com'',
      r_description = ''code hosting'', r_favicon = '''', r_created_at = 10,
      r_updated_at = 10\<rparr>"



text \<open>Every stored bookmark has a non-empty title and a non-empty url.\<close>

definition nonempty_fields :: "database \<Rightarrow> bool" where
  "nonempty_fields db = (\<forall>r \<in> set (bookmarks db). r_title r \<noteq> [] \<and> r_url r \<noteq> [])"

definition empty_title_patch :: UpdateBookmarkRequest where
  "empty_title_patch =
     \<lparr>up_title = Some '''', up_url = None, up_description = None, up_favicon = None,
      up_tagIds = None\<rparr>"

definition untitled_request :: CreateBookmarkRequest where
  "untitled_request =
     \<lparr>cr_title = Some '''', cr_url = Some ''http://a'', cr_description = None,
      cr_favicon = None, cr_tagIds = None\<rparr>"

subsection \<open>The text filter in the spec's words\<close>

text \<open>
  The spec asks for the bookmarks of which the title, the url or the description contains
  the search string as a case-insensitive substring. \<open>contains_ci s x\<close> says so of one
  field; it follows the spec's words, with the case folding that \<^verbatim>\<open>LIKE\<close> applies.
\<close>

definition contains_ci :: "string \<Rightarrow> string \<Rightarrow> bool" where
  "contains_ci s x = sublist (map lower s) (map lower x)"

definition underscore_query :: ListQuery where
  "underscore_query = \<lparr>q_search = Some ''_'', q_tagId = None\<rparr>"

section \<open>Properties\<close>

subsection \<open>Numbers and row ids\<close>

lemma as_rowid_of_int [simp]: "as_rowid (Num (of_int i)) = Some i"
  by simp

lemma as_rowid_SomeD: "as_rowid n = Some i \<Longrightarrow> n = Num (of_int i)"
  by (cases n) (auto split: if_splits)

lemma as_rowid_Some_not_NaN: "as_rowid n = Some i \<Longrightarrow> \<not> isNaN n"
  by (cases n) auto

lemma tag_ids_of_eq: "tag_ids_of db b = {t. (b, t) \<in> set (bookmark_tags db)}"
  by (force simp: tag_ids_of_def)

lemma other_associations_eq:
  "other_associations db b = {bt \<in> set (bookmark_tags db). fst bt \<noteq> b}"
  by (auto simp: other_associations_def)

lemma sample_history_eq: "sample_history = sample_db"
  by code_simp

lemma reachable_sample_db: "reachable sample_db"
  unfolding sample_history_eq [symmetric] sample_history_def
  by (intro reachable.intros)

subsection \<open>Identifiers that are not numbers\<close>




subsection \<open>Storage failures in the tag route\<close>

text \<open>
  What the tag route does in each case: a missing or empty name is answered with 400, a
  name that is taken with 409, a new name is stored with the default colour where none is
  given, and any failure of the insert whatsoever is answered with 409.
\<close>

lemma createTag_invalid_input:
  "ct_name body = None \<or> ct_name body = Some [] \<Longrightarrow>
     createTag db fault body = (Inl (AppError 400), db)"
  by (auto simp: createTag_def)

lemma createTag_duplicate_name:
  "ct_name body = Some (c # cs) \<Longrightarrow> c # cs \<in> set (map t_name (tags db)) \<Longrightarrow>
     createTag db None body = (Inl (AppError 409), db)"
  by (simp add: createTag_def insert_tag_def)

lemma createTag_new_name:
  "ct_name body = Some (c # cs) \<Longrightarrow> c # cs \<notin> set (map t_name (tags db)) \<Longrightarrow>
     \<exists>i. fst (createTag db None body) =
            Inr \<lparr>t_id = i, t_name = c # cs, t_color = nullish (ct_color body) ''#6366f1''\<rparr> \<and>
         tags (snd (createTag db None body)) =
           tags db @ [\<lparr>t_id = i, t_name = c # cs, t_color = nullish (ct_color body) ''#6366f1''\<rparr>]"
  by (simp add: createTag_def insert_tag_def Let_def)

lemma createTag_any_failure_is_conflict:
  "ct_name body = Some (c # cs) \<Longrightarrow>
     createTag db (Some e) body = (Inl (AppError 409), db)"
  by (simp add: createTag_def insert_tag_def)

text \<open>
  Claim C6 at a failing input. The database holds no tag named \<open>inbox\<close>, the request
  names it, and the insert fails because the disk is full. The route answers 409, the
  spec's \<open>Conflict\<close>; a storage failure that went to \<^verbatim>\<open>next(err)\<close> as it was thrown would
  be answered with 500 by \<open>errorHandler\<close>.
\<close>

theorem createTag_reports_full_disk_as_conflict:
  "''inbox'' \<notin> set (map t_name (tags sample_db)) \<and>
   createTag sample_db (Some SQLITE_FULL) \<lparr>ct_name = Some ''inbox'', ct_color = None\<rparr>
     = (Inl (AppError 409), sample_db) \<and>
   errorHandler (AppError 409) = 409 \<and>
   errorHandler (SqliteError SQLITE_FULL) = 500"
  by code_simp

subsection \<open>The list route\<close>


lemma order_desc_mset [simp]: "mset (order_by_created_at_desc rows) = mset rows"
  by (simp add: order_by_created_at_desc_def)

lemma order_desc_distinct [simp]: "distinct (order_by_created_at_desc rows) = distinct rows"
  by (simp add: order_by_created_at_desc_def)



lemma attachTags_createdAt [simp]: "bw_createdAt (attachTags db r) = r_created_at r"
  by (simp add: attachTags_def)






subsection \<open>Referential integrity and the cascade\<close>

lemma snd_read_back [simp]: "snd (read_back db n) = db"
  by (simp add: read_back_def split: option.split)

lemma ref_integrity_iff:
  "ref_integrity db \<longleftrightarrow>
     (\<forall>b t. (b, t) \<in> set (bookmark_tags db) \<longrightarrow>
        (\<exists>r \<in> set (bookmarks db). r_id r = b) \<and> (\<exists>x \<in> set (tags db). t_id x = t))"
  by (fastforce simp: ref_integrity_def)

lemma ref_integrity_insert_bookmark:
  "ref_integrity db \<Longrightarrow> ref_integrity (snd (insert_bookmark db now t u d f))"
  by (fastforce simp: ref_integrity_iff insert_bookmark_def Let_def)

lemma ref_integrity_insertTag_run:
  "ref_integrity db \<Longrightarrow> insertTag_run db n t = Inr db' \<Longrightarrow> ref_integrity db'"
  by (fastforce simp: ref_integrity_iff insertTag_run_def split: option.splits if_splits)

lemma ref_integrity_insertTags:
  "ref_integrity db \<Longrightarrow> ref_integrity (snd (insertTags db n ts))"
proof (induction ts arbitrary: db)
  case Nil
  then show ?case by simp
next
  case (Cons t ts)
  then show ?case
    by (auto split: sum.split dest: ref_integrity_insertTag_run)
qed

lemma ref_integrity_update_bookmark:
  "ref_integrity db \<Longrightarrow> ref_integrity (update_bookmark db now t u d f n)"
proof -
  have "map r_id (bookmarks (update_bookmark db now t u d f n)) = map r_id (bookmarks db)"
    by (simp add: update_bookmark_def comp_def if_distrib cong: if_cong)
  moreover have "bookmark_tags (update_bookmark db now t u d f n) = bookmark_tags db"
    "tags (update_bookmark db now t u d f n) = tags db"
    by (simp_all add: update_bookmark_def)
  ultimately show "ref_integrity db \<Longrightarrow> ?thesis"
    by (simp add: ref_integrity_def)
qed

lemma ref_integrity_delete_bookmark_tags:
  "ref_integrity db \<Longrightarrow> ref_integrity (delete_bookmark_tags db n)"
  by (fastforce simp: ref_integrity_iff delete_bookmark_tags_def)

lemma ref_integrity_delete_bookmark:
  "ref_integrity db \<Longrightarrow> ref_integrity (delete_bookmark db n)"
  by (fastforce simp: ref_integrity_iff delete_bookmark_def Let_def)

lemma ref_integrity_delete_tag:
  "ref_integrity db \<Longrightarrow> ref_integrity (delete_tag db n)"
  by (fastforce simp: ref_integrity_iff delete_tag_def Let_def)

lemma ref_integrity_insert_tag:
  "ref_integrity db \<Longrightarrow> insert_tag db fault name color = Inr (i, db') \<Longrightarrow> ref_integrity db'"
  by (fastforce simp: ref_integrity_iff insert_tag_def Let_def split: option.splits if_splits)

lemma ref_integrity_createBookmark:
  "ref_integrity db \<Longrightarrow> ref_integrity (snd (createBookmark db now body))"
  by (auto simp: createBookmark_def Let_def split_beta
      intro!: ref_integrity_insertTags ref_integrity_insert_bookmark
      split: option.split list.split)

lemma ref_integrity_updateBookmark:
  "ref_integrity db \<Longrightarrow> ref_integrity (snd (updateBookmark db now param body))"
  by (auto simp: updateBookmark_def Let_def split_beta
      intro!: ref_integrity_insertTags ref_integrity_update_bookmark
        ref_integrity_delete_bookmark_tags
      split: option.split list.split)

lemma ref_integrity_deleteBookmark:
  "ref_integrity db \<Longrightarrow> ref_integrity (snd (deleteBookmark db param))"
  by (auto simp: deleteBookmark_def Let_def intro!: ref_integrity_delete_bookmark
      split: option.split)

lemma ref_integrity_createTag:
  "ref_integrity db \<Longrightarrow> ref_integrity (snd (createTag db fault body))"
  by (auto simp: createTag_def split: option.split list.split sum.split
      dest: ref_integrity_insert_tag)

lemma ref_integrity_deleteTag:
  "ref_integrity db \<Longrightarrow> ref_integrity (snd (deleteTag db param))"
  by (auto simp: deleteTag_def Let_def intro!: ref_integrity_delete_tag
      split: option.split)

lemma reachable_ref_integrity: "reachable db \<Longrightarrow> ref_integrity db"
proof (induction rule: reachable.induct)
  case reach_init
  show ?case by (simp add: ref_integrity_def empty_db_def)
qed (simp_all add: ref_integrity_createBookmark ref_integrity_updateBookmark
    ref_integrity_deleteBookmark ref_integrity_createTag ref_integrity_deleteTag)


lemma select_bookmark_None:
  "select_bookmark db n = None \<Longrightarrow> as_rowid n = Some i \<Longrightarrow> i \<notin> set (map r_id (bookmarks db))"
  by (auto simp: select_bookmark_def find_None_iff)

lemma select_tag_None:
  "select_tag db n = None \<Longrightarrow> as_rowid n = Some i \<Longrightarrow> i \<notin> set (map t_id (tags db))"
  by (auto simp: select_tag_def find_None_iff)

lemma select_bookmark_SomeD:
  "select_bookmark db n = Some row \<Longrightarrow> as_rowid n = Some (r_id row) \<and> row \<in> set (bookmarks db)"
  by (auto simp: select_bookmark_def find_Some_iff split: option.splits)

lemma select_tag_SomeD:
  "select_tag db n = Some tg \<Longrightarrow> as_rowid n = Some (t_id tg) \<and> tg \<in> set (tags db)"
  by (auto simp: select_tag_def find_Some_iff split: option.splits)

lemma deleteBookmark_no_reference:
  assumes "ref_integrity db" "(b, t) \<in> set (bookmark_tags (snd (deleteBookmark db s)))"
  shows "as_rowid (Number s) \<noteq> Some b"
proof
  assume i: "as_rowid (Number s) = Some b"
  then have nn: "\<not> isNaN (Number s)"
    by (rule as_rowid_Some_not_NaN)
  show False
  proof (cases "select_bookmark db (Number s)")
    case None
    with nn have "snd (deleteBookmark db s) = db"
      by (simp add: deleteBookmark_def Let_def)
    with assms have "b \<in> set (map r_id (bookmarks db))"
      by (fastforce simp: ref_integrity_iff)
    with select_bookmark_None [OF None i] show False
      by simp
  next
    case (Some row)
    with nn have "snd (deleteBookmark db s) = delete_bookmark db (Number s)"
      by (simp add: deleteBookmark_def Let_def)
    with assms(2) i select_bookmark_SomeD [OF Some] show False
      by (auto simp: delete_bookmark_def Let_def)
  qed
qed

lemma deleteTag_no_reference:
  assumes "ref_integrity db" "(b, t) \<in> set (bookmark_tags (snd (deleteTag db s)))"
  shows "as_rowid (Number s) \<noteq> Some t"
proof
  assume i: "as_rowid (Number s) = Some t"
  then have nn: "\<not> isNaN (Number s)"
    by (rule as_rowid_Some_not_NaN)
  show False
  proof (cases "select_tag db (Number s)")
    case None
    with nn have "snd (deleteTag db s) = db"
      by (simp add: deleteTag_def Let_def)
    with assms have "t \<in> set (map t_id (tags db))"
      by (fastforce simp: ref_integrity_iff)
    with select_tag_None [OF None i] show False
      by simp
  next
    case (Some row)
    with nn have "snd (deleteTag db s) = delete_tag db (Number s)"
      by (simp add: deleteTag_def Let_def)
    with assms(2) i select_tag_SomeD [OF Some] show False
      by (auto simp: delete_tag_def Let_def)
  qed
qed

lemma isNaN_as_rowid: "isNaN n \<Longrightarrow> as_rowid n = None"
  by (cases n) auto

lemma deleteBookmark_gone: "select_bookmark (snd (deleteBookmark db s)) (Number s) = None"
  by (auto simp: deleteBookmark_def Let_def select_bookmark_def delete_bookmark_def find_None_iff
      isNaN_as_rowid split: option.splits)

lemma deleteTag_gone: "select_tag (snd (deleteTag db s)) (Number s) = None"
  by (auto simp: deleteTag_def Let_def select_tag_def delete_tag_def find_None_iff
      isNaN_as_rowid split: option.splits)

text \<open>
  Claim C5. In every reachable database each association row references an existing
  bookmark and an existing tag. The delete routes remove the parent with one statement,
  whose cascade removes the association rows in the same step: in the database that
  \<^verbatim>\<open>deleteBookmark\<close> or \<^verbatim>\<open>deleteTag\<close> leaves behind the parent of that id is gone, no
  association row references it, and integrity holds again.
\<close>

theorem associations_never_orphaned:
  "reachable db \<Longrightarrow>
     ref_integrity db \<and>
     select_bookmark (snd (deleteBookmark db s)) (Number s) = None \<and>
     (\<forall>bt \<in> set (bookmark_tags (snd (deleteBookmark db s))). as_rowid (Number s) \<noteq> Some (fst bt)) \<and>
     ref_integrity (snd (deleteBookmark db s)) \<and>
     select_tag (snd (deleteTag db s)) (Number s) = None \<and>
     (\<forall>bt \<in> set (bookmark_tags (snd (deleteTag db s))). as_rowid (Number s) \<noteq> Some (snd bt)) \<and>
     ref_integrity (snd (deleteTag db s))"
proof -
  assume r: "reachable db"
  then have i: "ref_integrity db"
    by (rule reachable_ref_integrity)
  have "\<forall>bt \<in> set (bookmark_tags (snd (deleteBookmark db s))). as_rowid (Number s) \<noteq> Some (fst bt)"
    using deleteBookmark_no_reference [OF i] by (metis prod.collapse)
  moreover have "\<forall>bt \<in> set (bookmark_tags (snd (deleteTag db s))). as_rowid (Number s) \<noteq> Some (snd bt)"
    using deleteTag_no_reference [OF i] by (metis prod.collapse)
  ultimately show ?thesis
    using i by (simp add: deleteBookmark_gone deleteTag_gone ref_integrity_deleteBookmark
        ref_integrity_deleteTag)
qed

theorem associations_never_orphaned_witness:
  "reachable sample_db \<and> ref_integrity sample_db \<and>
   bookmark_tags sample_db = [(1, 1), (1, 2), (2, 1)] \<and>
   bookmark_tags (snd (deleteBookmark sample_db ''1'')) = [(2, 1)] \<and>
   select_bookmark (snd (deleteBookmark sample_db ''1'')) (Number ''1'') = None \<and>
   ref_integrity (snd (deleteBookmark sample_db ''1'')) \<and>
   bookmark_tags (snd (deleteTag sample_db ''1'')) = [(1, 2)] \<and>
   select_tag (snd (deleteTag sample_db ''1'')) (Number ''1'') = None \<and>
   ref_integrity (snd (deleteTag sample_db ''1''))"
proof -
  have e: "bookmark_tags sample_db = [(1, 1), (1, 2), (2, 1)]"
    "bookmark_tags (snd (deleteBookmark sample_db ''1'')) = [(2, 1)]"
    "bookmark_tags (snd (deleteTag sample_db ''1'')) = [(1, 2)]"
    by code_simp+
  from e reachable_sample_db associations_never_orphaned [OF reachable_sample_db, of "''1''"]
  show ?thesis
    by simp
qed

subsection \<open>Deleting a tag\<close>

lemma inner_join_filter:
  "[t. t \<leftarrow> filter (\<lambda>x. t_id x \<noteq> k) ts, t_id t = j] =
     filter (\<lambda>x. t_id x \<noteq> k) [t. t \<leftarrow> ts, t_id t = j]"
  for ts :: "Tag list"
  by (induction ts) auto

lemma inner_join_gone: "filter (\<lambda>x. t_id x \<noteq> k) [t. t \<leftarrow> ts, t_id t = k] = []"
  for ts :: "Tag list"
  by (induction ts) auto

lemma join_filter:
  "[t. bt \<leftarrow> filter (\<lambda>bt. snd bt \<noteq> k) bts, fst bt = r,
       t \<leftarrow> filter (\<lambda>x. t_id x \<noteq> k) ts, t_id t = snd bt] =
   filter (\<lambda>x. t_id x \<noteq> k) [t. bt \<leftarrow> bts, fst bt = r, t \<leftarrow> ts, t_id t = snd bt]"
  for ts :: "Tag list"
proof (induction bts)
  case Nil
  show ?case by simp
next
  case (Cons bt bts)
  show ?case
  proof (cases "snd bt = k")
    case True
    with Cons show ?thesis
      by (simp add: inner_join_gone)
  next
    case False
    with Cons show ?thesis
      by (simp add: inner_join_filter)
  qed
qed

lemma delete_tag_existing:
  assumes "select_tag db n = Some tg"
  shows "delete_tag db n =
           db\<lparr>tags := filter (\<lambda>x. t_id x \<noteq> t_id tg) (tags db),
              bookmark_tags := filter (\<lambda>bt. snd bt \<noteq> t_id tg) (bookmark_tags db)\<rparr>"
proof -
  from select_tag_SomeD [OF assms] have n: "as_rowid n = Some (t_id tg)" and m: "tg \<in> set (tags db)"
    by simp_all
  have "set (map t_id (filter (\<lambda>t. as_rowid n = Some (t_id t)) (tags db))) = {t_id tg}"
    using n m by auto
  moreover have "filter (\<lambda>t. as_rowid n \<noteq> Some (t_id t)) (tags db) =
      filter (\<lambda>x. t_id x \<noteq> t_id tg) (tags db)"
    using n by (auto intro: filter_cong)
  ultimately show ?thesis
    by (simp add: delete_tag_def Let_def)
qed

text \<open>
  Claim C10. For the id of an existing tag \<open>tg\<close>, \<^verbatim>\<open>deleteTag\<close> answers with the id and
  leaves the table \<^verbatim>\<open>bookmarks\<close> as it was, every field of every row, \<^verbatim>\<open>updated_at\<close>
  included. It removes the tag rows of that id and the association rows that reference it,
  and nothing else. The view of any bookmark row afterwards is its view before with the
  tags of that id taken out of \<^verbatim>\<open>tags\<close>.
\<close>

theorem deleteTag_frame:
  "select_tag db (Number s) = Some tg \<Longrightarrow>
     fst (deleteTag db s) = Inr (Number s) \<and>
     bookmarks (snd (deleteTag db s)) = bookmarks db \<and>
     tags (snd (deleteTag db s)) = filter (\<lambda>x. t_id x \<noteq> t_id tg) (tags db) \<and>
     bookmark_tags (snd (deleteTag db s)) =
       filter (\<lambda>bt. snd bt \<noteq> t_id tg) (bookmark_tags db) \<and>
     (\<forall>row. attachTags (snd (deleteTag db s)) row =
        (attachTags db row)\<lparr>bw_tags := filter (\<lambda>x. t_id x \<noteq> t_id tg) (bw_tags (attachTags db row))\<rparr>)"
proof -
  assume e: "select_tag db (Number s) = Some tg"
  then have "as_rowid (Number s) = Some (t_id tg)"
    by (simp add: select_tag_SomeD)
  then have "\<not> isNaN (Number s)"
    by (rule as_rowid_Some_not_NaN)
  with e have d: "deleteTag db s = (Inr (Number s), delete_tag db (Number s))"
    by (simp add: deleteTag_def Let_def)
  show ?thesis
    unfolding d delete_tag_existing [OF e]
    by (simp add: attachTags_def join_filter cong: if_cong)
qed

theorem deleteTag_frame_witness:
  "select_tag sample_db (Number ''1'') = Some \<lparr>t_id = 1, t_name = ''work'', t_color = ''#6366f1''\<rparr> \<and>
   fst (deleteTag sample_db ''1'') = Inr (Number ''1'') \<and>
   bookmarks (snd (deleteTag sample_db ''1'')) = bookmarks sample_db \<and>
   map t_name (tags (snd (deleteTag sample_db ''1''))) = [''dev''] \<and>
   bookmark_tags (snd (deleteTag sample_db ''1'')) = [(1, 2)] \<and>
   map (\<lambda>b. map t_name (bw_tags b)) (listBookmarks sample_db sample_q3) = [[''work''], [''work'', ''dev'']] \<and>
   map (\<lambda>b. map t_name (bw_tags b)) (listBookmarks (snd (deleteTag sample_db ''1'')) sample_q3) = [[], [''dev'']]"
proof -
  have h: "select_tag sample_db (Number ''1'') = Some \<lparr>t_id = 1, t_name = ''work'', t_color = ''#6366f1''\<rparr>"
    by code_simp
  have e: "map t_name (tags (snd (deleteTag sample_db ''1''))) = [''dev'']"
    "bookmark_tags (snd (deleteTag sample_db ''1'')) = [(1, 2)]"
    "map (\<lambda>b. map t_name (bw_tags b)) (listBookmarks sample_db sample_q3) = [[''work''], [''work'', ''dev'']]"
    "map (\<lambda>b. map t_name (bw_tags b)) (listBookmarks (snd (deleteTag sample_db ''1'')) sample_q3) = [[], [''dev'']]"
    by code_simp+
  from h e deleteTag_frame [OF h] show ?thesis
    by simp
qed

subsection \<open>Fresh ids, the loop of inserts and unique ids\<close>

lemma fold_max_ge_init: "a \<le> fold max xs a"
  for a :: int
  by (induction xs arbitrary: a) (auto intro: order_trans [OF max.cobounded2])

lemma fold_max_ge_elem: "x \<in> set xs \<Longrightarrow> x \<le> fold max xs a"
  for a :: int
proof (induction xs arbitrary: a)
  case Nil
  then show ?case by simp
next
  case (Cons y ys)
  show ?case
  proof (cases "x = y")
    case True
    have "y \<le> max y a" by simp
    also have "\<dots> \<le> fold max ys (max y a)" by (rule fold_max_ge_init)
    finally show ?thesis using True by simp
  next
    case False
    with Cons show ?thesis by simp
  qed
qed

lemma fold_max_fresh: "fold max xs a + 1 \<notin> set xs"
  for a :: int
  using fold_max_ge_elem [of "fold max xs a + 1" xs a] by auto

lemma fold_max_fresh_map: "fold max (map f xs) a + 1 \<notin> f ` set xs"
  for a :: int
  using fold_max_fresh [of "map f xs" a] by simp

lemma fold_max_fresh_elem: "x \<in> set xs \<Longrightarrow> fold max (map f xs) a + 1 \<noteq> f x"
  for a :: int
  using fold_max_fresh_map [of f xs a] by auto

lemma set_bw_tags:
  "set (bw_tags (attachTags db row)) =
     {t \<in> set (tags db). (r_id row, t_id t) \<in> set (bookmark_tags db)}"
  by (force simp: attachTags_def)

lemma insertTags_frame:
  "bookmarks (snd (insertTags db n ts)) = bookmarks db \<and>
   tags (snd (insertTags db n ts)) = tags db \<and>
   seq_bookmarks (snd (insertTags db n ts)) = seq_bookmarks db \<and>
   seq_tags (snd (insertTags db n ts)) = seq_tags db"
proof (induction ts arbitrary: db)
  case Nil
  show ?case by simp
next
  case (Cons t ts)
  show ?case
  proof (cases "insertTag_run db n t")
    case (Inl e)
    then show ?thesis by simp
  next
    case (Inr db')
    then have "bookmarks db' = bookmarks db \<and> tags db' = tags db \<and>
        seq_bookmarks db' = seq_bookmarks db \<and> seq_tags db' = seq_tags db"
      by (auto simp: insertTag_run_def split: option.splits if_splits)
    with Inr Cons [of db'] show ?thesis by simp
  qed
qed

lemma insertTags_effect:
  assumes "as_rowid n = Some b"
    and "b \<in> set (map r_id (bookmarks db))"
    and "\<forall>t. (b, t) \<in> set (bookmark_tags db) \<longrightarrow> tag_exists db t"
  shows "set (bookmark_tags (snd (insertTags db n ts))) =
           set (bookmark_tags db) \<union> {(b, t) | t. t \<in> set (takeWhile (tag_exists db) ts)} \<and>
         fst (insertTags db n ts) =
           (if list_all (tag_exists db) ts then None else Some SQLITE_CONSTRAINT_FOREIGNKEY)"
  using assms
proof (induction ts arbitrary: db)
  case Nil
  show ?case by simp
next
  case (Cons t ts)
  show ?case
  proof (cases "tag_exists db t")
    case False
    with Cons.prems have "insertTag_run db n t = Inl SQLITE_CONSTRAINT_FOREIGNKEY"
      by (auto simp: insertTag_run_def tag_exists_def)
    with False show ?thesis by simp
  next
    case True
    define db' where "db' = (if (b, t) \<in> set (bookmark_tags db) then db
                             else db\<lparr>bookmark_tags := bookmark_tags db @ [(b, t)]\<rparr>)"
    from True Cons.prems have run: "insertTag_run db n t = Inr db'"
      by (auto simp: insertTag_run_def tag_exists_def db'_def)
    have same: "bookmarks db' = bookmarks db" "tags db' = tags db"
      by (simp_all add: db'_def)
    then have te: "tag_exists db' = tag_exists db"
      by (simp add: tag_exists_def fun_eq_iff)
    have bt: "set (bookmark_tags db') = insert (b, t) (set (bookmark_tags db))"
      by (auto simp: db'_def)
    have "\<forall>t'. (b, t') \<in> set (bookmark_tags db') \<longrightarrow> tag_exists db' t'"
      using Cons.prems(3) True bt te by auto
    from Cons.IH [OF Cons.prems(1) _ this] Cons.prems(2) same
    have IH: "set (bookmark_tags (snd (insertTags db' n ts))) =
           set (bookmark_tags db') \<union> {(b, t) | t. t \<in> set (takeWhile (tag_exists db') ts)} \<and>
         fst (insertTags db' n ts) =
           (if list_all (tag_exists db') ts then None else Some SQLITE_CONSTRAINT_FOREIGNKEY)"
      by simp
    with run True bt te show ?thesis
      by auto
  qed
qed


lemma unique_ids_insert_bookmark:
  "unique_ids db \<Longrightarrow> unique_ids (snd (insert_bookmark db now t u d f))"
  by (simp add: unique_ids_def insert_bookmark_def Let_def fold_max_fresh_map)

lemma unique_ids_insertTags: "unique_ids db \<Longrightarrow> unique_ids (snd (insertTags db n ts))"
  by (simp add: unique_ids_def insertTags_frame)

lemma map_r_id_update_bookmark:
  "map r_id (bookmarks (update_bookmark db now t u d f n)) = map r_id (bookmarks db)"
  by (simp add: update_bookmark_def comp_def if_distrib cong: if_cong)

lemma unique_ids_update_bookmark:
  "unique_ids db \<Longrightarrow> unique_ids (update_bookmark db now t u d f n)"
  using map_r_id_update_bookmark [of db now t u d f n]
  by (simp add: unique_ids_def) (simp add: update_bookmark_def)

lemma unique_ids_delete_bookmark_tags:
  "unique_ids db \<Longrightarrow> unique_ids (delete_bookmark_tags db n)"
  by (simp add: unique_ids_def delete_bookmark_tags_def)

lemma unique_ids_delete_bookmark: "unique_ids db \<Longrightarrow> unique_ids (delete_bookmark db n)"
  by (simp add: unique_ids_def delete_bookmark_def Let_def distinct_map_filter)

lemma unique_ids_delete_tag: "unique_ids db \<Longrightarrow> unique_ids (delete_tag db n)"
  by (simp add: unique_ids_def delete_tag_def Let_def distinct_map_filter)

lemma unique_ids_insert_tag:
  "unique_ids db \<Longrightarrow> insert_tag db fault name color = Inr (i, db') \<Longrightarrow> unique_ids db'"
  by (auto simp: unique_ids_def insert_tag_def Let_def fold_max_fresh_elem
      split: option.splits if_splits)

lemma unique_ids_createBookmark:
  "unique_ids db \<Longrightarrow> unique_ids (snd (createBookmark db now body))"
  by (auto simp: createBookmark_def Let_def split_beta
      intro!: unique_ids_insertTags unique_ids_insert_bookmark
      split: option.split list.split)

lemma unique_ids_updateBookmark:
  "unique_ids db \<Longrightarrow> unique_ids (snd (updateBookmark db now param body))"
  by (auto simp: updateBookmark_def Let_def split_beta
      intro!: unique_ids_insertTags unique_ids_update_bookmark unique_ids_delete_bookmark_tags
      split: option.split list.split)

lemma unique_ids_deleteBookmark:
  "unique_ids db \<Longrightarrow> unique_ids (snd (deleteBookmark db param))"
  by (auto simp: deleteBookmark_def Let_def intro!: unique_ids_delete_bookmark
      split: option.split)

lemma unique_ids_createTag:
  "unique_ids db \<Longrightarrow> unique_ids (snd (createTag db fault body))"
  by (auto simp: createTag_def split: option.split list.split sum.split
      dest: unique_ids_insert_tag)

lemma unique_ids_deleteTag:
  "unique_ids db \<Longrightarrow> unique_ids (snd (deleteTag db param))"
  by (auto simp: deleteTag_def Let_def intro!: unique_ids_delete_tag split: option.split)

lemma reachable_unique_ids: "reachable db \<Longrightarrow> unique_ids db"
proof (induction rule: reachable.induct)
  case reach_init
  show ?case by (simp add: unique_ids_def empty_db_def)
qed (simp_all add: unique_ids_createBookmark unique_ids_updateBookmark
    unique_ids_deleteBookmark unique_ids_createTag unique_ids_deleteTag)

lemma unique_tag:
  "unique_ids db \<Longrightarrow> select_tag db n = Some tg \<Longrightarrow> as_rowid n = Some i \<Longrightarrow>
     {t \<in> set (tags db). t_id t = i} = {tg}"
  by (auto simp: unique_ids_def dest!: select_tag_SomeD dest: inj_on_eq_iff [OF distinct_map [THEN iffD1, THEN conjunct2]])

subsection \<open>Creating a bookmark and reading it back\<close>

lemma insert_bookmark_effect:
  "insert_bookmark db now t u d f = (i, db') \<Longrightarrow>
     i \<notin> set (map r_id (bookmarks db)) \<and>
     bookmarks db' = bookmarks db @
       [\<lparr>r_id = i, r_title = t, r_url = u, r_description = d, r_favicon = f,
         r_created_at = now, r_updated_at = now\<rparr>] \<and>
     tags db' = tags db \<and> bookmark_tags db' = bookmark_tags db"
  by (auto simp: insert_bookmark_def Let_def fold_max_fresh_elem)

lemma find_fresh_append:
  "i \<notin> set (map r_id rows) \<Longrightarrow> r_id row = i \<Longrightarrow>
     find (\<lambda>r. r_id r = i) (rows @ [row]) = Some row"
  by (induction rows) auto

lemma as_rowid_1 [simp]: "as_rowid (Num 1) = Some 1"
  using as_rowid_of_int [of 1] by simp

lemma as_rowid_2 [simp]: "as_rowid (Num 2) = Some 2"
  using as_rowid_of_int [of 2] by simp

text \<open>
  Claim C9. In a reachable database in which the tags 1 and 2 exist, creating the
  bookmark \<open>{title: A, url: http://a, tagIds: [1, 2]}\<close> succeeds, and
  \<^verbatim>\<open>getBookmark\<close> on the database left behind, with any route text that denotes the
  returned id, answers with the same record: its title is \<open>A\<close>, its url \<open>http://a\<close>,
  its tags are, as a set, the two tags of ids 1 and 2, and \<^verbatim>\<open>createdAt\<close> equals
  \<^verbatim>\<open>updatedAt\<close>.
\<close>

theorem create_then_get_roundtrip:
  assumes "reachable db"
    and "select_tag db (Num 1) = Some t1"
    and "select_tag db (Num 2) = Some t2"
  shows "\<exists>bw db'.
           createBookmark db now roundtrip_request = (Inr bw, db') \<and>
           (\<forall>p. Number p = Num (of_int (bw_id bw)) \<longrightarrow> getBookmark db' p = Inr bw) \<and>
           bw_title bw = ''A'' \<and> bw_url bw = ''http://a'' \<and>
           set (bw_tags bw) = {t1, t2} \<and>
           bw_createdAt bw = bw_updatedAt bw"
proof -
  obtain i db1 where ins: "insert_bookmark db now ''A'' ''http://a'' [] [] = (i, db1)"
    by (metis surj_pair)
  define row where "row = \<lparr>r_id = i, r_title = ''A'', r_url = ''http://a'', r_description = [],
     r_favicon = [], r_created_at = now, r_updated_at = now\<rparr>"
  from insert_bookmark_effect [OF ins]
  have fresh: "i \<notin> set (map r_id (bookmarks db))"
    and b1: "bookmarks db1 = bookmarks db @ [row]"
    and t1': "tags db1 = tags db" and bt1: "bookmark_tags db1 = bookmark_tags db"
    by (simp_all add: row_def)
  have ri: "ref_integrity db" and ui: "unique_ids db"
    using assms(1) by (simp_all add: reachable_ref_integrity reachable_unique_ids)
  have e1: "tag_exists db1 1" and e2: "tag_exists db1 2"
    using select_tag_SomeD [OF assms(2)] select_tag_SomeD [OF assms(3)]
    by (auto simp: tag_exists_def t1')
  have none: "\<forall>t. (i, t) \<in> set (bookmark_tags db1) \<longrightarrow> tag_exists db1 t"
    using ri fresh by (fastforce simp: ref_integrity_iff bt1)
  have inb: "i \<in> set (map r_id (bookmarks db1))"
    by (simp add: b1 row_def)
  define db2 where "db2 = snd (insertTags db1 (Num (of_int i)) [1, 2])"
  from insertTags_effect [OF as_rowid_of_int inb none, of "[1, 2]"] e1 e2
  have loop: "insertTags db1 (Num (of_int i)) [1, 2] = (None, db2)"
    and bt2: "set (bookmark_tags db2) = set (bookmark_tags db) \<union> {(i, 1), (i, 2)}"
    by (cases "insertTags db1 (Num (of_int i)) [1, 2]"; auto simp: db2_def bt1)+
  from insertTags_frame [of db1 "Num (of_int i)" "[1, 2]"]
  have b2: "bookmarks db2 = bookmarks db @ [row]" and t2': "tags db2 = tags db"
    by (simp_all add: db2_def b1 t1')
  have sel: "select_bookmark db2 (Num (of_int i)) = Some row"
    using find_fresh_append [OF fresh, of row] by (simp add: select_bookmark_def b2 row_def)
  have cr: "createBookmark db now roundtrip_request = (Inr (attachTags db2 row), db2)"
    by (simp add: createBookmark_def roundtrip_request_def nullish_def ins loop read_back_def sel
        Let_def del: insertTags.simps)
  have get: "getBookmark db2 p = Inr (attachTags db2 row)" if "Number p = Num (of_int i)" for p
    using that sel by (simp add: getBookmark_def)
  have "set (bw_tags (attachTags db2 row)) = {t \<in> set (tags db). t_id t = 1 \<or> t_id t = 2}"
    using ri fresh by (fastforce simp: set_bw_tags t2' bt2 row_def ref_integrity_iff)
  also have "\<dots> = {t \<in> set (tags db). t_id t = 1} \<union> {t \<in> set (tags db). t_id t = 2}"
    by blast
  also have "\<dots> = {t1, t2}"
    using unique_tag [OF ui assms(2), of 1] unique_tag [OF ui assms(3), of 2]
    by auto
  finally have tg: "set (bw_tags (attachTags db2 row)) = {t1, t2}" .
  have flds: "bw_id (attachTags db2 row) = i" "bw_title (attachTags db2 row) = ''A''"
    "bw_url (attachTags db2 row) = ''http://a''"
    "bw_createdAt (attachTags db2 row) = bw_updatedAt (attachTags db2 row)"
    by (simp_all add: attachTags_def row_def)
  from cr get tg flds show ?thesis
    by auto
qed


theorem create_then_get_roundtrip_witness:
  "reachable sample_db \<and>
   select_tag sample_db (Num 1) = Some \<lparr>t_id = 1, t_name = ''work'', t_color = ''#6366f1''\<rparr> \<and>
   select_tag sample_db (Num 2) = Some \<lparr>t_id = 2, t_name = ''dev'', t_color = ''#ff0000''\<rparr> \<and>
   (\<exists>bw db'.
      createBookmark sample_db 30 roundtrip_request = (Inr bw, db') \<and>
      bw_id bw = 3 \<and>
      getBookmark db' ''3'' = Inr bw \<and>
      bw_title bw = ''A'' \<and> bw_url bw = ''http://a'' \<and>
      set (bw_tags bw) =
        {\<lparr>t_id = 1, t_name = ''work'', t_color = ''#6366f1''\<rparr>,
         \<lparr>t_id = 2, t_name = ''dev'', t_color = ''#ff0000''\<rparr>} \<and>
      bw_createdAt bw = bw_updatedAt bw)"
proof -
  have h1: "select_tag sample_db (Num 1) = Some \<lparr>t_id = 1, t_name = ''work'', t_color = ''#6366f1''\<rparr>"
    by code_simp
  have h2: "select_tag sample_db (Num 2) = Some \<lparr>t_id = 2, t_name = ''dev'', t_color = ''#ff0000''\<rparr>"
    by code_simp
  have n: "Number ''3'' = Num 3"
    by code_simp
  have i: "map_sum (\<lambda>e. e) bw_id (fst (createBookmark sample_db 30 roundtrip_request)) = Inr 3"
    by code_simp
  have "\<exists>bw db'.
      createBookmark sample_db 30 roundtrip_request = (Inr bw, db') \<and>
      bw_id bw = 3 \<and>
      getBookmark db' ''3'' = Inr bw \<and>
      bw_title bw = ''A'' \<and> bw_url bw = ''http://a'' \<and>
      set (bw_tags bw) =
        {\<lparr>t_id = 1, t_name = ''work'', t_color = ''#6366f1''\<rparr>,
         \<lparr>t_id = 2, t_name = ''dev'', t_color = ''#ff0000''\<rparr>} \<and>
      bw_createdAt bw = bw_updatedAt bw"
    using create_then_get_roundtrip [OF reachable_sample_db h1 h2, of 30]
  proof (elim exE conjE)
    fix bw db'
    assume c: "createBookmark sample_db 30 roundtrip_request = (Inr bw, db')"
      and g: "\<forall>p. Number p = Num (of_int (bw_id bw)) \<longrightarrow> getBookmark db' p = Inr bw"
      and f1: "bw_title bw = ''A''" and f2: "bw_url bw = ''http://a''"
      and f3: "set (bw_tags bw) =
        {\<lparr>t_id = 1, t_name = ''work'', t_color = ''#6366f1''\<rparr>,
         \<lparr>t_id = 2, t_name = ''dev'', t_color = ''#ff0000''\<rparr>}"
      and f4: "bw_createdAt bw = bw_updatedAt bw"
    from i c have id3: "bw_id bw = 3"
      by simp
    with g n have g3: "getBookmark db' ''3'' = Inr bw"
      by simp
    show ?thesis
      by (intro exI conjI) (rule c id3 g3 f1 f2 f3 f4)+
  qed
  with reachable_sample_db h1 h2 show ?thesis
    by (intro conjI)
qed

subsection \<open>Effect of the update route\<close>

lemma find_map_same_test:
  "(\<And>x. P (f x) = P x) \<Longrightarrow> find P (map f xs) = map_option f (find P xs)"
  by (induction xs) auto

lemma select_bookmark_update_same:
  assumes "select_bookmark db n = Some existing"
  shows "select_bookmark (update_bookmark db now t u d f n) n =
           Some (existing\<lparr>r_title := t, r_url := u, r_description := d, r_favicon := f,
                          r_updated_at := now\<rparr>)"
proof -
  from select_bookmark_SomeD [OF assms] have i: "as_rowid n = Some (r_id existing)"
    by simp
  let ?f = "\<lambda>r. if as_rowid n = Some (r_id r)
                 then r\<lparr>r_title := t, r_url := u, r_description := d, r_favicon := f,
                        r_updated_at := now\<rparr>
                 else r"
  have "find (\<lambda>r. r_id r = r_id existing) (map ?f (bookmarks db)) =
          map_option ?f (find (\<lambda>r. r_id r = r_id existing) (bookmarks db))"
    by (rule find_map_same_test) simp
  with assms i show ?thesis
    by (simp add: select_bookmark_def update_bookmark_def)
qed

lemma select_bookmark_update_other:
  assumes "as_rowid m \<noteq> as_rowid n"
  shows "select_bookmark (update_bookmark db now t u d f n) m = select_bookmark db m"
proof (cases "as_rowid m")
  case None
  then show ?thesis by (simp add: select_bookmark_def)
next
  case (Some j)
  let ?f = "\<lambda>r. if as_rowid n = Some (r_id r)
                 then r\<lparr>r_title := t, r_url := u, r_description := d, r_favicon := f,
                        r_updated_at := now\<rparr>
                 else r"
  have "find (\<lambda>r. r_id r = j) (map ?f (bookmarks db)) =
          map_option ?f (find (\<lambda>r. r_id r = j) (bookmarks db))"
    by (rule find_map_same_test) simp
  moreover have "map_option ?f (find (\<lambda>r. r_id r = j) (bookmarks db)) =
      find (\<lambda>r. r_id r = j) (bookmarks db)"
  proof (cases "find (\<lambda>r. r_id r = j) (bookmarks db)")
    case None
    then show ?thesis by simp
  next
    case (Some r)
    then have "r_id r = j"
      by (auto simp: find_Some_iff)
    with assms \<open>as_rowid m = Some j\<close> Some show ?thesis
      by auto
  qed
  ultimately show ?thesis
    using Some by (simp add: select_bookmark_def update_bookmark_def)
qed

lemma select_bookmark_same_table:
  "bookmarks db' = bookmarks db \<Longrightarrow> select_bookmark db' n = select_bookmark db n"
  by (simp add: select_bookmark_def split: option.split)

lemma patched_eq:
  "patched existing patch now =
     existing\<lparr>r_title := nullish (up_title patch) (r_title existing),
              r_url := nullish (up_url patch) (r_url existing),
              r_description := nullish (up_description patch) (r_description existing),
              r_favicon := nullish (up_favicon patch) (r_favicon existing),
              r_updated_at := now\<rparr>"
  by (simp add: patched_def nullish_def)

lemma updateBookmark_effect:
  assumes ex: "select_bookmark db (Number s) = Some existing"
  shows "select_bookmark (snd (updateBookmark db now s patch)) (Number s) =
           Some (patched existing patch now)"
    and "as_rowid m \<noteq> as_rowid (Number s) \<Longrightarrow>
           select_bookmark (snd (updateBookmark db now s patch)) m = select_bookmark db m"
    and "tags (snd (updateBookmark db now s patch)) = tags db"
    and "up_tagIds patch = None \<Longrightarrow>
           bookmark_tags (snd (updateBookmark db now s patch)) = bookmark_tags db \<and>
           fst (updateBookmark db now s patch) =
             Inr (attachTags (snd (updateBookmark db now s patch)) (patched existing patch now))"
    and "up_tagIds patch = Some ts \<Longrightarrow>
           tag_ids_of (snd (updateBookmark db now s patch)) (r_id existing) =
             set (takeWhile (tag_exists db) ts) \<and>
           other_associations (snd (updateBookmark db now s patch)) (r_id existing) =
             other_associations db (r_id existing) \<and>
           fst (updateBookmark db now s patch) =
             (if list_all (tag_exists db) ts
              then Inr (attachTags (snd (updateBookmark db now s patch))
                         (patched existing patch now))
              else Inl (SqliteError SQLITE_CONSTRAINT_FOREIGNKEY))"
proof -
  let ?n = "Number s"
  let ?i = "r_id existing"
  from select_bookmark_SomeD [OF ex] have i: "as_rowid ?n = Some ?i" and mem: "existing \<in> set (bookmarks db)"
    by simp_all
  then have nn: "\<not> isNaN ?n"
    by (simp add: as_rowid_Some_not_NaN)
  define db1 where "db1 = update_bookmark db now (nullish (up_title patch) (r_title existing))
      (nullish (up_url patch) (r_url existing))
      (nullish (up_description patch) (r_description existing))
      (nullish (up_favicon patch) (r_favicon existing)) ?n"
  have sel1: "select_bookmark db1 ?n = Some (patched existing patch now)"
    unfolding db1_def patched_eq by (rule select_bookmark_update_same [OF ex])
  have oth1: "select_bookmark db1 m = select_bookmark db m" if "as_rowid m \<noteq> as_rowid ?n" for m
    unfolding db1_def by (rule select_bookmark_update_other [OF that])
  have t1: "tags db1 = tags db" and bt1: "bookmark_tags db1 = bookmark_tags db"
    by (simp_all add: db1_def update_bookmark_def)
  have ids1: "?i \<in> set (map r_id (bookmarks db1))"
    using mem map_r_id_update_bookmark [of db now _ _ _ _ ?n] by (simp add: db1_def)
  define db1' where "db1' = delete_bookmark_tags db1 ?n"
  have b1': "bookmarks db1' = bookmarks db1" and t1': "tags db1' = tags db"
    and bt1': "bookmark_tags db1' = filter (\<lambda>bt. fst bt \<noteq> ?i) (bookmark_tags db)"
    using i by (auto simp: db1'_def delete_bookmark_tags_def t1 bt1 intro: filter_cong)
  have te: "tag_exists db1' = tag_exists db"
    by (simp add: tag_exists_def fun_eq_iff t1')
  have run: "updateBookmark db now s patch =
      (case up_tagIds patch of
         None \<Rightarrow> read_back db1 ?n
       | Some ts \<Rightarrow>
          (case fst (insertTags db1' ?n ts) of
             Some e \<Rightarrow> (Inl (SqliteError e), snd (insertTags db1' ?n ts))
           | None \<Rightarrow> read_back (snd (insertTags db1' ?n ts)) ?n))"
    using ex nn
    by (cases "up_tagIds patch")
      (auto simp: updateBookmark_def Let_def db1_def db1'_def split_beta split: option.split)
  have rb: "read_back db' ?n = (Inr (attachTags db' (patched existing patch now)), db')"
    if "bookmarks db' = bookmarks db1" for db'
    using sel1 select_bookmark_same_table [OF that, of ?n] by (simp add: read_back_def)
  have snd_b: "bookmarks (snd (updateBookmark db now s patch)) = bookmarks db1"
    and snd_t: "tags (snd (updateBookmark db now s patch)) = tags db"
    unfolding run
    by (auto simp: insertTags_frame b1' t1 t1' split: option.split)
  show "select_bookmark (snd (updateBookmark db now s patch)) ?n = Some (patched existing patch now)"
    using sel1 select_bookmark_same_table [OF snd_b] by simp
  show "select_bookmark (snd (updateBookmark db now s patch)) m = select_bookmark db m"
    if "as_rowid m \<noteq> as_rowid ?n"
    using oth1 [OF that] select_bookmark_same_table [OF snd_b] by simp
  show "tags (snd (updateBookmark db now s patch)) = tags db"
    by (rule snd_t)
  show "bookmark_tags (snd (updateBookmark db now s patch)) = bookmark_tags db \<and>
        fst (updateBookmark db now s patch) =
          Inr (attachTags (snd (updateBookmark db now s patch)) (patched existing patch now))"
    if "up_tagIds patch = None"
    using that rb [of db1] by (simp add: run bt1)
  show "tag_ids_of (snd (updateBookmark db now s patch)) ?i = set (takeWhile (tag_exists db) ts) \<and>
        other_associations (snd (updateBookmark db now s patch)) ?i = other_associations db ?i \<and>
        fst (updateBookmark db now s patch) =
          (if list_all (tag_exists db) ts
           then Inr (attachTags (snd (updateBookmark db now s patch)) (patched existing patch now))
           else Inl (SqliteError SQLITE_CONSTRAINT_FOREIGNKEY))"
    if ts: "up_tagIds patch = Some ts"
  proof -
    define db2 where "db2 = snd (insertTags db1' ?n ts)"
    have "\<forall>t. (?i, t) \<in> set (bookmark_tags db1') \<longrightarrow> tag_exists db1' t"
      by (simp add: bt1')
    from insertTags_effect [OF i _ this, of ts] ids1
    have set2: "set (bookmark_tags db2) =
        set (bookmark_tags db1') \<union> {(?i, t) | t. t \<in> set (takeWhile (tag_exists db) ts)}"
      and thrown: "fst (insertTags db1' ?n ts) =
        (if list_all (tag_exists db) ts then None else Some SQLITE_CONSTRAINT_FOREIGNKEY)"
      by (simp_all add: b1' te db2_def)
    have b2: "bookmarks db2 = bookmarks db1"
      by (simp add: db2_def insertTags_frame b1')
    have res: "updateBookmark db now s patch =
       (if list_all (tag_exists db) ts
        then (Inr (attachTags db2 (patched existing patch now)), db2)
        else (Inl (SqliteError SQLITE_CONSTRAINT_FOREIGNKEY), db2))"
      using rb [OF b2] by (simp add: run ts thrown db2_def)
    then have s2: "snd (updateBookmark db now s patch) = db2"
      by simp
    have "tag_ids_of db2 ?i = set (takeWhile (tag_exists db) ts)"
      by (auto simp: tag_ids_of_eq set2 bt1')
    moreover have "other_associations db2 ?i = other_associations db ?i"
      by (auto simp: other_associations_eq set2 bt1')
    ultimately show ?thesis
      unfolding s2 using res by simp
  qed
qed

subsection \<open>Partial update\<close>

text \<open>
  Claim C3, as amended. For the id of an existing bookmark and a patch whose
  \<^verbatim>\<open>tagIds\<close>, if present, name existing tags only, \<^verbatim>\<open>updateBookmark\<close> answers with the
  view of the patched row: the fields present in the patch are overwritten (also by the
  empty string), the absent ones are retained, \<^verbatim>\<open>updated_at\<close> is refreshed. The stored
  row of that id is the patched row, every other bookmark is as before, and so are the tags.
  With \<^verbatim>\<open>tagIds\<close> absent the associations are untouched; with \<^verbatim>\<open>tagIds\<close> present (the
  empty sequence included) the tag ids associated with the bookmark are exactly those of
  the sequence, and the associations of the other bookmarks are untouched.
\<close>

theorem updateBookmark_partial_update:
  assumes "select_bookmark db (Number s) = Some existing"
    and "\<forall>ts. up_tagIds patch = Some ts \<longrightarrow> list_all (tag_exists db) ts"
  shows "fst (updateBookmark db now s patch) =
           Inr (attachTags (snd (updateBookmark db now s patch)) (patched existing patch now)) \<and>
         select_bookmark (snd (updateBookmark db now s patch)) (Number s) =
           Some (patched existing patch now) \<and>
         (\<forall>m. as_rowid m \<noteq> as_rowid (Number s) \<longrightarrow>
            select_bookmark (snd (updateBookmark db now s patch)) m = select_bookmark db m) \<and>
         tags (snd (updateBookmark db now s patch)) = tags db \<and>
         (up_tagIds patch = None \<longrightarrow>
            bookmark_tags (snd (updateBookmark db now s patch)) = bookmark_tags db) \<and>
         (\<forall>ts. up_tagIds patch = Some ts \<longrightarrow>
            tag_ids_of (snd (updateBookmark db now s patch)) (r_id existing) = set ts \<and>
            other_associations (snd (updateBookmark db now s patch)) (r_id existing) =
              other_associations db (r_id existing))"
proof (intro conjI allI impI)
  note eff = updateBookmark_effect [OF assms(1), where now = now and patch = patch]
  show "fst (updateBookmark db now s patch) =
      Inr (attachTags (snd (updateBookmark db now s patch)) (patched existing patch now))"
  proof (cases "up_tagIds patch")
    case None
    with eff(4) show ?thesis by simp
  next
    case (Some ts)
    with eff(5) [OF Some] assms(2) show ?thesis by simp
  qed
  show "select_bookmark (snd (updateBookmark db now s patch)) (Number s) =
      Some (patched existing patch now)"
    by (rule eff(1))
  show "select_bookmark (snd (updateBookmark db now s patch)) m = select_bookmark db m"
    if "as_rowid m \<noteq> as_rowid (Number s)" for m
    using that by (rule eff(2))
  show "tags (snd (updateBookmark db now s patch)) = tags db"
    by (rule eff(3))
  show "bookmark_tags (snd (updateBookmark db now s patch)) = bookmark_tags db"
    if "up_tagIds patch = None"
    using eff(4) [OF that] by simp
  fix ts
  assume ts: "up_tagIds patch = Some ts"
  with assms(2) have "takeWhile (tag_exists db) ts = ts"
    by (simp add: takeWhile_eq_all_conv list_all_iff)
  with eff(5) [OF ts]
  show "tag_ids_of (snd (updateBookmark db now s patch)) (r_id existing) = set ts"
    and "other_associations (snd (updateBookmark db now s patch)) (r_id existing) =
      other_associations db (r_id existing)"
    by simp_all
qed

theorem updateBookmark_partial_update_witness:
  "select_bookmark sample_db (Number ''1'') = Some github_row \<and>
   up_tagIds sample_patch = Some [2] \<and> list_all (tag_exists sample_db) [2] \<and>
   select_bookmark (snd (updateBookmark sample_db 30 ''1'' sample_patch)) (Number ''1'') =
     Some (patched github_row sample_patch 30) \<and>
   patched github_row sample_patch 30 =
     github_row\<lparr>r_description := [], r_updated_at := 30\<rparr> \<and>
   tag_ids_of (snd (updateBookmark sample_db 30 ''1'' sample_patch)) (r_id github_row) = {2} \<and>
   bookmark_tags sample_db = [(1, 1), (1, 2), (2, 1)] \<and>
   bookmark_tags (snd (updateBookmark sample_db 30 ''1'' sample_patch)) = [(2, 1), (1, 2)]"
proof -
  have h1: "select_bookmark sample_db (Number ''1'') = Some github_row"
    by code_simp
  have h2: "up_tagIds sample_patch = Some [2]"
    by (simp add: sample_patch_def)
  have h3: "list_all (tag_exists sample_db) [2]"
    by code_simp
  from h2 h3 have h4: "\<forall>ts. up_tagIds sample_patch = Some ts \<longrightarrow> list_all (tag_exists sample_db) ts"
    by simp
  have e: "patched github_row sample_patch 30 = github_row\<lparr>r_description := [], r_updated_at := 30\<rparr>"
    "bookmark_tags sample_db = [(1, 1), (1, 2), (2, 1)]"
    "bookmark_tags (snd (updateBookmark sample_db 30 ''1'' sample_patch)) = [(2, 1), (1, 2)]"
    by code_simp+
  from updateBookmark_partial_update [OF h1 h4, where now = 30] h2
  have "select_bookmark (snd (updateBookmark sample_db 30 ''1'' sample_patch)) (Number ''1'') =
     Some (patched github_row sample_patch 30)"
    and "tag_ids_of (snd (updateBookmark sample_db 30 ''1'' sample_patch)) (r_id github_row) = {2}"
    by simp_all
  with h1 h2 h3 e show ?thesis
    by (intro conjI)
qed

text \<open>
  Claim C3, as stated, fails for a patch that names a tag which does not exist: the
  insert of the association violates the foreign key, the route throws, and the bookmark
  is left with no association, not with the one the patch names.
\<close>

theorem updateBookmark_unknown_tag_fails:
  "select_bookmark sample_db (Number ''1'') = Some github_row \<and>
   up_tagIds unknown_tag_patch = Some [7] \<and>
   fst (updateBookmark sample_db 30 ''1'' unknown_tag_patch) =
     Inl (SqliteError SQLITE_CONSTRAINT_FOREIGNKEY) \<and>
   bookmark_tags sample_db = [(1, 1), (1, 2), (2, 1)] \<and>
   bookmark_tags (snd (updateBookmark sample_db 30 ''1'' unknown_tag_patch)) = [(2, 1)]"
  by code_simp

subsection \<open>Writes of a bookmark and of its associations\<close>

lemma createBookmark_run:
  assumes "cr_title body = Some (a # as)" and "cr_url body = Some (b # bs)"
    and "cr_tagIds body = Some ts"
    and "insert_bookmark db now (a # as) (b # bs) (nullish (cr_description body) [])
           (nullish (cr_favicon body) []) = (i, db1)"
  shows "createBookmark db now body =
      (case fst (insertTags db1 (Num (of_int i)) ts) of
         Some e \<Rightarrow> (Inl (SqliteError e), snd (insertTags db1 (Num (of_int i)) ts))
       | None \<Rightarrow> read_back (snd (insertTags db1 (Num (of_int i)) ts)) (Num (of_int i)))"
proof (cases ts)
  case Nil
  with assms show ?thesis
    by (simp add: createBookmark_def)
next
  case (Cons x xs)
  with assms show ?thesis
    by (simp add: createBookmark_def split_beta Let_def del: insertTags.simps
        cong: option.case_cong)
qed







subsection \<open>Non-empty title and url\<close>

lemma bookmarks_createBookmark:
  "bookmarks (snd (createBookmark db now body)) = bookmarks db \<or>
   (\<exists>row. r_title row \<noteq> [] \<and> r_url row \<noteq> [] \<and>
      bookmarks (snd (createBookmark db now body)) = bookmarks db @ [row])"
proof (cases "\<exists>a as b bs. cr_title body = Some (a # as) \<and> cr_url body = Some (b # bs)")
  case False
  then have "createBookmark db now body = (Inl (AppError 400), db)"
    by (auto simp: createBookmark_def split: option.split list.split)
  then show ?thesis by simp
next
  case True
  then obtain a as b bs where ti: "cr_title body = Some (a # as)" and ur: "cr_url body = Some (b # bs)"
    by blast
  obtain i db1 where ins: "insert_bookmark db now (a # as) (b # bs)
      (nullish (cr_description body) []) (nullish (cr_favicon body) []) = (i, db1)"
    by (metis surj_pair)
  have "bookmarks (snd (createBookmark db now body)) = bookmarks db1"
  proof (cases "cr_tagIds body")
    case None
    with ti ur ins show ?thesis
      by (simp add: createBookmark_def)
  next
    case (Some ts)
    show ?thesis
      unfolding createBookmark_run [OF ti ur Some ins]
      by (simp add: insertTags_frame split: option.split)
  qed
  with insert_bookmark_effect [OF ins] show ?thesis
    by simp
qed

lemma nonempty_fields_createBookmark:
  "nonempty_fields db \<Longrightarrow> nonempty_fields (snd (createBookmark db now body))"
  using bookmarks_createBookmark [of db now body]
  by (auto simp: nonempty_fields_def)

lemma createBookmark_rejects:
  "cr_title body = None \<or> cr_title body = Some [] \<or> cr_url body = None \<or> cr_url body = Some []
     \<Longrightarrow> createBookmark db now body = (Inl (AppError 400), db)"
  by (auto simp: createBookmark_def split: option.split list.split)

lemma nonempty_fields_update_bookmark:
  "nonempty_fields db \<Longrightarrow> t \<noteq> [] \<Longrightarrow> u \<noteq> [] \<Longrightarrow>
     nonempty_fields (update_bookmark db now t u d f n)"
  by (auto simp: nonempty_fields_def update_bookmark_def)

lemma nonempty_fields_updateBookmark:
  assumes inv: "nonempty_fields db"
    and "up_title patch \<noteq> Some []" and "up_url patch \<noteq> Some []"
  shows "nonempty_fields (snd (updateBookmark db now s patch))"
proof (cases "select_bookmark db (Number s)")
  case None
  then have "snd (updateBookmark db now s patch) = db"
    by (simp add: updateBookmark_def Let_def)
  with inv show ?thesis by simp
next
  case (Some existing)
  then have "existing \<in> set (bookmarks db)"
    by (simp add: select_bookmark_SomeD)
  with inv have ne: "r_title existing \<noteq> []" "r_url existing \<noteq> []"
    by (auto simp: nonempty_fields_def)
  have t: "nullish (up_title patch) (r_title existing) \<noteq> []"
    using assms(2) ne by (cases "up_title patch") (simp_all add: nullish_def)
  have u: "nullish (up_url patch) (r_url existing) \<noteq> []"
    using assms(3) ne by (cases "up_url patch") (simp_all add: nullish_def)
  let ?db1 = "update_bookmark db now (nullish (up_title patch) (r_title existing))
      (nullish (up_url patch) (r_url existing))
      (nullish (up_description patch) (r_description existing))
      (nullish (up_favicon patch) (r_favicon existing)) (Number s)"
  have "bookmarks (snd (updateBookmark db now s patch)) = bookmarks db \<or>
      bookmarks (snd (updateBookmark db now s patch)) = bookmarks ?db1"
    using Some
    by (auto simp: updateBookmark_def Let_def split_beta insertTags_frame delete_bookmark_tags_def
        split: option.split)
  with inv nonempty_fields_update_bookmark [OF inv t u, of now _ _ "Number s"] show ?thesis
    by (auto simp: nonempty_fields_def)
qed

lemma nonempty_fields_filter:
  "nonempty_fields db \<Longrightarrow> set (bookmarks db') \<subseteq> set (bookmarks db) \<Longrightarrow> nonempty_fields db'"
  by (auto simp: nonempty_fields_def)

lemma nonempty_fields_other_routes:
  assumes "nonempty_fields db"
  shows "nonempty_fields (snd (deleteBookmark db s))"
    and "nonempty_fields (snd (createTag db fault tbody))"
    and "nonempty_fields (snd (deleteTag db s))"
proof -
  have "set (bookmarks (snd (deleteBookmark db s))) \<subseteq> set (bookmarks db)"
    by (auto simp: deleteBookmark_def Let_def delete_bookmark_def split: option.split)
  with assms show "nonempty_fields (snd (deleteBookmark db s))"
    by (rule nonempty_fields_filter)
  have "set (bookmarks (snd (createTag db fault tbody))) \<subseteq> set (bookmarks db)"
    by (auto simp: createTag_def insert_tag_def Let_def
        split: option.splits list.splits sum.splits if_splits)
  with assms show "nonempty_fields (snd (createTag db fault tbody))"
    by (rule nonempty_fields_filter)
  have "set (bookmarks (snd (deleteTag db s))) \<subseteq> set (bookmarks db)"
    by (auto simp: deleteTag_def Let_def delete_tag_def split: option.split)
  with assms show "nonempty_fields (snd (deleteTag db s))"
    by (rule nonempty_fields_filter)
qed

text \<open>
  Claim C7, as amended. \<^verbatim>\<open>createBookmark\<close> rejects an absent or empty title or url
  with status 400 and writes nothing, so it keeps every stored title and url non-empty;
  so do the delete routes and the tag routes. \<^verbatim>\<open>updateBookmark\<close> keeps them non-empty
  when the patch carries neither an empty title nor an empty url.
\<close>

theorem title_and_url_stay_nonempty:
  "nonempty_fields db \<Longrightarrow>
     nonempty_fields (snd (createBookmark db now body)) \<and>
     (cr_title body = None \<or> cr_title body = Some [] \<or> cr_url body = None \<or> cr_url body = Some []
        \<longrightarrow> createBookmark db now body = (Inl (AppError 400), db)) \<and>
     (up_title patch \<noteq> Some [] \<and> up_url patch \<noteq> Some [] \<longrightarrow>
        nonempty_fields (snd (updateBookmark db now s patch))) \<and>
     nonempty_fields (snd (deleteBookmark db s)) \<and>
     nonempty_fields (snd (createTag db fault tbody)) \<and>
     nonempty_fields (snd (deleteTag db s))"
  by (simp add: nonempty_fields_createBookmark createBookmark_rejects
      nonempty_fields_updateBookmark nonempty_fields_other_routes)

theorem title_and_url_stay_nonempty_witness:
  "nonempty_fields sample_db \<and>
   nonempty_fields (snd (createBookmark sample_db 30 roundtrip_request)) \<and>
   cr_title untitled_request = Some [] \<and>
   createBookmark sample_db 30 untitled_request = (Inl (AppError 400), sample_db) \<and>
   up_title sample_patch \<noteq> Some [] \<and> up_url sample_patch \<noteq> Some [] \<and>
   nonempty_fields (snd (updateBookmark sample_db 30 ''1'' sample_patch)) \<and>
   map r_title (bookmarks (snd (updateBookmark sample_db 30 ''1'' sample_patch))) =
     [''GitHub'', ''Example'']"
proof -
  have h: "nonempty_fields sample_db"
    by code_simp
  have e: "map r_title (bookmarks (snd (updateBookmark sample_db 30 ''1'' sample_patch))) =
     [''GitHub'', ''Example'']"
    by code_simp
  have p: "cr_title untitled_request = Some []" "up_title sample_patch \<noteq> Some []"
    "up_url sample_patch \<noteq> Some []"
    by (simp_all add: untitled_request_def sample_patch_def)
  from p h e
    title_and_url_stay_nonempty [OF h, where body = roundtrip_request and now = 30]
    title_and_url_stay_nonempty [OF h, where body = untitled_request and now = 30
      and patch = sample_patch and s = "''1''"]
  show ?thesis
    by simp
qed

text \<open>
  Claim C7, as stated, fails: \<^verbatim>\<open>updateBookmark\<close> with the title \<open>''\<close> in the patch
  succeeds and stores the empty title (the operator \<^verbatim>\<open>??\<close> replaces only an absent
  value), and the database it leaves is reachable.
\<close>

theorem empty_title_stored_by_update:
  "reachable (snd (updateBookmark sample_db 30 ''1'' empty_title_patch)) \<and>
   map r_title (bookmarks sample_db) = [''GitHub'', ''Example''] \<and>
   map_sum (\<lambda>e. e) bw_title (fst (updateBookmark sample_db 30 ''1'' empty_title_patch)) = Inr [] \<and>
   map r_title (bookmarks (snd (updateBookmark sample_db 30 ''1'' empty_title_patch))) =
     [[], ''Example'']"
proof -
  have "reachable (snd (updateBookmark sample_db 30 ''1'' empty_title_patch))"
    by (rule reach_updateBookmark [OF reachable_sample_db])
  moreover have "map r_title (bookmarks sample_db) = [''GitHub'', ''Example'']"
    "map_sum (\<lambda>e. e) bw_title (fst (updateBookmark sample_db 30 ''1'' empty_title_patch)) = Inr []"
    "map r_title (bookmarks (snd (updateBookmark sample_db 30 ''1'' empty_title_patch))) =
     [[], ''Example'']"
    by code_simp+
  ultimately show ?thesis
    by (intro conjI)
qed

subsection \<open>The text filter\<close>

lemma like_percent: "like (CHR ''%'' # ps) x \<longleftrightarrow> (\<exists>t. suffix t x \<and> like ps t)"
proof (induction x)
  case Nil
  show ?case by simp
next
  case (Cons c cs)
  have "like (CHR ''%'' # ps) (c # cs) \<longleftrightarrow> like ps (c # cs) \<or> like (CHR ''%'' # ps) cs"
    by simp
  also have "\<dots> \<longleftrightarrow> like ps (c # cs) \<or> (\<exists>t. suffix t cs \<and> like ps t)"
    by (simp only: Cons.IH)
  also have "\<dots> \<longleftrightarrow> (\<exists>t. suffix t (c # cs) \<and> like ps t)"
    by (auto simp: suffix_Cons)
  finally show ?case .
qed

lemma like_only_percent: "like ''%'' x"
  by (simp only: like_percent) (rule exI [of _ "[]"], simp)

lemma like_literal_then_percent:
  "CHR ''%'' \<notin> set s \<Longrightarrow> CHR ''_'' \<notin> set s \<Longrightarrow>
     like (s @ ''%'') x \<longleftrightarrow> prefix (map lower s) (map lower x)"
proof (induction s arbitrary: x)
  case Nil
  show ?case using like_only_percent by simp
next
  case (Cons p ps)
  then show ?case
    by (cases x) auto
qed

lemma suffix_of_map:
  "(\<exists>t. suffix t x \<and> P (map f t)) \<longleftrightarrow> (\<exists>t'. suffix t' (map f x) \<and> P t')"
proof
  assume "\<exists>t. suffix t x \<and> P (map f t)"
  then obtain t where "suffix t x" "P (map f t)" by blast
  then have "suffix (map f t) (map f x)"
    by (auto simp: suffix_def)
  with \<open>P (map f t)\<close> show "\<exists>t'. suffix t' (map f x) \<and> P t'" by blast
next
  assume "\<exists>t'. suffix t' (map f x) \<and> P t'"
  then obtain t' zs where "map f x = zs @ t'" "P t'"
    by (auto simp: suffix_def)
  then obtain a b where "x = a @ b" "map f b = t'"
    by (auto simp: map_eq_append_conv)
  with \<open>P t'\<close> show "\<exists>t. suffix t x \<and> P (map f t)"
    by (auto simp: suffix_def)
qed

lemma like_is_contains_ci:
  assumes "CHR ''%'' \<notin> set s" and "CHR ''_'' \<notin> set s"
  shows "like (''%'' @ s @ ''%'') x \<longleftrightarrow> contains_ci s x"
proof -
  have "like (''%'' @ s @ ''%'') x \<longleftrightarrow> (\<exists>t. suffix t x \<and> like (s @ ''%'') t)"
    using like_percent [of "s @ ''%''" x] by simp
  also have "\<dots> \<longleftrightarrow> (\<exists>t. suffix t x \<and> prefix (map lower s) (map lower t))"
    by (simp only: like_literal_then_percent [OF assms])
  also have "\<dots> \<longleftrightarrow> (\<exists>t'. suffix t' (map lower x) \<and> prefix (map lower s) t')"
    by (rule suffix_of_map)
  also have "\<dots> \<longleftrightarrow> contains_ci s x"
    by (simp add: contains_ci_def sublist_altdef')
  finally show ?thesis .
qed

text \<open>
  Claim C4 at a failing input. The route hands the search string to \<^verbatim>\<open>LIKE\<close> between two
  \<^verbatim>\<open>%\<close> without escaping it. For a search string free of \<^verbatim>\<open>%\<close> and \<^verbatim>\<open>_\<close> the
  filter is the substring test of the claim (lemma \<open>like_is_contains_ci\<close>). The search
  string \<^verbatim>\<open>_\<close> is a pattern that any non-empty text matches: the route returns both
  bookmarks of the sample database, although no title, url or description there contains
  an underscore.
\<close>

theorem search_underscore_matches_everything:
  "\<not> contains_ci ''_'' ''GitHub'' \<and> \<not> contains_ci ''_'' ''https://github.com'' \<and>
   \<not> contains_ci ''_'' ''code hosting'' \<and>
   \<not> contains_ci ''_'' ''Example'' \<and> \<not> contains_ci ''_'' ''http://example.org'' \<and>
   \<not> contains_ci ''_'' [] \<and>
   map (\<lambda>b. (bw_title b, bw_url b, bw_description b)) (listBookmarks sample_db underscore_query) =
     [(''Example'', ''http://example.org'', []),
      (''GitHub'', ''https://github.com'', ''code hosting'')]"
  by code_simp

end
